theory Spec2Isabelle
  imports Complex_Main
begin

section \<open>The box-classification head of Mask R-CNN (model/boxclass_head.py)\<close>

text \<open>
  The head is a TensorFlow program. Tensors are embedded as lists, a trailing dimension of
  static size 4 as a 4-tuple, and a float as a real number: rounding is not part of the
  embedding, and a property whose truth depends on the rounding is stated for inputs on
  which the float32 operations concerned are exact. The values that IEEE arithmetic
  produces where a real quotient does not exist (a division by zero) are kept apart in the
  type \<open>tf_float\<close>. An operation that TensorFlow or Python rejects is a result
  \<open>Inl e\<close>.
\<close>

subsection \<open>Values, errors and the TensorFlow operations the head calls\<close>

datatype error = AssertionError | IndexError | ValueError | InvalidArgument

datatype tf_float = Finite real | PosInf | NegInf | NaN

type_synonym 'a quad = "'a \<times> 'a \<times> 'a \<times> 'a"

type_synonym vec4 = "real quad"

text \<open>A rank-2 tensor of static second dimension \<open>shape1\<close>: the list of its rows. For a
  tensor of shape [N, K, 4] the elements are 4-tuples.\<close>

record 'a tensor =
  shape1 :: nat
  rows :: "'a list list"

definition wf_tensor :: "'a tensor \<Rightarrow> bool" where
  "wf_tensor t = list_all (\<lambda>r. length r = shape1 t) (rows t)"

definition bind_e :: "error + 'a \<Rightarrow> ('a \<Rightarrow> error + 'b) \<Rightarrow> error + 'b" where
  "bind_e m f = (case m of Inl e \<Rightarrow> Inl e | Inr x \<Rightarrow> f x)"

text \<open>\<open>tf.truediv\<close> and every float division: a zero divisor gives NaN or an infinity.\<close>

definition tf_div :: "real \<Rightarrow> real \<Rightarrow> tf_float" where
  "tf_div a b =
     (if b \<noteq> 0 then Finite (a / b)
      else if a = 0 then NaN
      else if 0 < a then PosInf else NegInf)"

text \<open>\<open>tf.reduce_mean\<close> of a float vector: the sum over the count, NaN on no element.\<close>

definition reduce_mean :: "real list \<Rightarrow> tf_float" where
  "reduce_mean xs = tf_div (sum_list xs) (real (length xs))"

text \<open>\<open>tf.where(c, x, y)\<close> on a scalar condition: both operands are computed, one is
  returned.\<close>

definition tf_where_scalar :: "bool \<Rightarrow> 'a \<Rightarrow> 'a \<Rightarrow> 'a" where
  "tf_where_scalar c x y = (if c then x else y)"

text \<open>\<open>tf.where(mask)[:, 0]\<close> on a vector: the positions that hold True, ascending.\<close>

definition tf_where :: "bool list \<Rightarrow> nat list" where
  "tf_where cond = filter (\<lambda>j. cond ! j) [0..<length cond]"

text \<open>\<open>tf.gather\<close> along axis 0. The CPU kernel rejects an index outside the tensor.\<close>

definition gather :: "'a list \<Rightarrow> nat list \<Rightarrow> error + 'a list" where
  "gather params idx =
     (if list_all (\<lambda>j. j < length params) idx then Inr (map (\<lambda>j. params ! j) idx)
      else Inl InvalidArgument)"

text \<open>\<open>tf.gather\<close> with an index tensor given by the caller (signed integers).\<close>

definition gather_int :: "'a list \<Rightarrow> int list \<Rightarrow> error + 'a list" where
  "gather_int params idx =
     (if list_all (\<lambda>j. 0 \<le> j) idx then gather params (map nat idx)
      else Inl InvalidArgument)"

subsection \<open>boxclass_losses\<close>

text \<open>Elementwise operations on two tensors of shapes [A, ...] and [B, ...] pair the rows
  when A = B, repeat the single row when A = 1 or B = 1, and are rejected otherwise.\<close>

definition broadcast_rows :: "'a list \<Rightarrow> 'b list \<Rightarrow> error + ('a \<times> 'b) list" where
  "broadcast_rows xs ys =
     (if length xs = length ys then Inr (zip xs ys)
      else if length xs = 1 then Inr (map (\<lambda>y. (hd xs, y)) ys)
      else if length ys = 1 then Inr (map (\<lambda>x. (x, hd ys)) xs)
      else Inl InvalidArgument)"

text \<open>\<open>tf.gather_nd\<close> with index pairs into the two leading dimensions.\<close>

definition gather_nd :: "'a list list \<Rightarrow> (nat \<times> nat) list \<Rightarrow> error + 'a list" where
  "gather_nd params indices =
     (if list_all (\<lambda>(r, c). r < length params \<and> c < length (params ! r)) indices
      then Inr (map (\<lambda>(r, c). params ! r ! c) indices)
      else Inl InvalidArgument)"

text \<open>\<open>tf.nn.sparse_softmax_cross_entropy_with_logits\<close>: per row, minus the logarithm of
  the softmax entry of the label; one label per row, each label a class index.\<close>

definition sparse_softmax_cross_entropy_with_logits ::
  "int list \<Rightarrow> real tensor \<Rightarrow> error + real list" where
  "sparse_softmax_cross_entropy_with_logits labels logits =
     (if length labels \<noteq> length (rows logits) then Inl InvalidArgument
      else if \<not> list_all (\<lambda>l. 0 \<le> l \<and> l < int (shape1 logits)) labels then Inl InvalidArgument
      else Inr (map2 (\<lambda>l r. ln (sum_list (map exp r)) - r ! nat l) labels (rows logits)))"

text \<open>\<open>tf.argmax(t, axis=1)\<close>: per row the position of the largest entry, the first one
  where several entries are largest (TensorFlow leaves that choice open); an axis of size 0
  is rejected.\<close>

definition argmax_row :: "real list \<Rightarrow> nat" where
  "argmax_row r = hd (filter (\<lambda>j. r ! j = Max (set r)) [0..<length r])"

definition argmax :: "real tensor \<Rightarrow> error + nat list" where
  "argmax t = (if shape1 t = 0 then Inl InvalidArgument else Inr (map argmax_row (rows t)))"

text \<open>\<open>tf.losses.huber_loss(labels, predictions, reduction=SUM)\<close> with its default
  \<open>delta = 1\<close> and weight 1: the elementwise loss, summed over all elements.\<close>

definition huber :: "real \<Rightarrow> real \<Rightarrow> real" where
  "huber label prediction =
     (let err = prediction - label;
          abs_error = \<bar>err\<bar>;
          quadratic = min abs_error 1;
          linear = abs_error - quadratic
      in 1 / 2 * quadratic ^ 2 + 1 * linear)"

fun list_of_quad :: "'a quad \<Rightarrow> 'a list" where
  "list_of_quad (a, b, c, d) = [a, b, c, d]"

definition huber_loss_sum :: "vec4 list \<Rightarrow> vec4 list \<Rightarrow> error + real" where
  "huber_loss_sum labels predictions =
     bind_e (broadcast_rows labels predictions) (\<lambda>ps.
       Inr (sum_list (map (\<lambda>(l, p). sum_list (map2 huber (list_of_quad l) (list_of_quad p))) ps)))"

text \<open>Lines 58 to 67: the foreground positions and the regression logits the box loss
  uses. With more than one class slot the row of each foreground proposal is taken at the
  index pair (row, label); otherwise the tensor is reshaped to [-1, 4].\<close>

definition fg_inds_of :: "int list \<Rightarrow> nat list" where
  "fg_inds_of labels = tf_where (map (\<lambda>l. 0 < l) labels)"

definition select_fg_box_logits :: "int list \<Rightarrow> vec4 tensor \<Rightarrow> error + vec4 list" where
  "select_fg_box_logits labels fg_box_logits =
     (let fg_inds = fg_inds_of labels;
          fg_labels = map (\<lambda>j. labels ! j) fg_inds;
          num_fg = length fg_inds
      in if 1 < shape1 fg_box_logits
         then (let indices = zip [0..<num_fg] (map nat fg_labels)
               in gather_nd (rows fg_box_logits) indices)
         else Inr (concat (rows fg_box_logits)))"

text \<open>Lines 69 to 78: accuracy, fg_accuracy and false_negative.\<close>

definition label_metrics :: "int list \<Rightarrow> real tensor \<Rightarrow> error + (tf_float \<times> tf_float \<times> tf_float)" where
  "label_metrics labels label_logits =
     (let fg_inds = fg_inds_of labels;
          num_fg = length fg_inds;
          empty_fg = (num_fg = 0)
      in bind_e (argmax label_logits) (\<lambda>prediction.
         bind_e (broadcast_rows prediction labels) (\<lambda>ps.
           let correct = map (\<lambda>(p, l). if int p = l then 1 else 0) ps;
               accuracy = reduce_mean correct
           in bind_e (gather (rows label_logits) fg_inds) (\<lambda>fg_logits.
              bind_e (argmax \<lparr>shape1 = shape1 label_logits, rows = fg_logits\<rparr>) (\<lambda>fg_label_pred.
                let num_zero = length (filter (\<lambda>p. p = 0) fg_label_pred);
                    false_negative = tf_where_scalar empty_fg (Finite 0)
                                       (tf_div (real num_zero) (real num_fg))
                in bind_e (gather correct fg_inds) (\<lambda>fg_correct.
                     let fg_accuracy = tf_where_scalar empty_fg (Finite 0) (reduce_mean fg_correct)
                     in Inr (accuracy, fg_accuracy, false_negative)))))))"

text \<open>The two losses that \<open>boxclass_losses\<close> returns and the four diagnostics it hands to
  \<open>add_moving_summary\<close>.\<close>

record loss_summary =
  label_loss :: tf_float
  box_loss :: tf_float
  accuracy :: tf_float
  fg_accuracy :: tf_float
  false_negative :: tf_float
  num_fg_label :: real

definition boxclass_losses ::
  "int list \<Rightarrow> real tensor \<Rightarrow> vec4 list \<Rightarrow> vec4 tensor \<Rightarrow> error + loss_summary" where
  "boxclass_losses labels label_logits fg_boxes fg_box_logits =
     bind_e (sparse_softmax_cross_entropy_with_logits labels label_logits) (\<lambda>ce.
     bind_e (select_fg_box_logits labels fg_box_logits) (\<lambda>selected.
     bind_e (label_metrics labels label_logits) (\<lambda>(acc, fg_acc, fn).
     bind_e (huber_loss_sum fg_boxes selected) (\<lambda>s.
       Inr \<lparr>label_loss = reduce_mean ce,
            box_loss = tf_div s (real (length labels)),
            accuracy = acc, fg_accuracy = fg_acc, false_negative = fn,
            num_fg_label = real (length (fg_inds_of labels))\<rparr>))))"

text \<open>Inputs of matching shapes, on which no operation of \<open>boxclass_losses\<close> is rejected:
  one logit row per label, the labels class indices, one regression row and one target per
  foreground label.\<close>

definition losses_inputs_ok :: "int list \<Rightarrow> real tensor \<Rightarrow> vec4 list \<Rightarrow> vec4 tensor \<Rightarrow> bool" where
  "losses_inputs_ok labels logits fg_boxes fg_box_logits =
     (wf_tensor logits \<and> wf_tensor fg_box_logits
      \<and> 0 < shape1 logits \<and> 0 < shape1 fg_box_logits
      \<and> length labels = length (rows logits)
      \<and> list_all (\<lambda>l. 0 \<le> l \<and> l < int (shape1 logits)) labels
      \<and> (1 < shape1 fg_box_logits \<longrightarrow> list_all (\<lambda>l. l < int (shape1 fg_box_logits)) labels)
      \<and> length (rows fg_box_logits) = length (filter (\<lambda>l. 0 < l) labels)
      \<and> length fg_boxes = length (filter (\<lambda>l. 0 < l) labels))"

subsection \<open>boxclass_predictions\<close>

text \<open>The constants of \<open>config.py\<close> that the head reads.\<close>

record config =
  NUM_CLASS :: nat
  RESULT_SCORE_THRESH :: real
  RESULTS_PER_IM :: nat
  FRCNN_NMS_THRESH :: real

text \<open>\<open>tf.image.non_max_suppression\<close>. The overlap of two boxes is their
  intersection over union, 0 when one of them has no area. The candidates are visited by
  descending score, equal scores by ascending position; a candidate is selected unless
  its overlap with a box selected before exceeds the threshold; the selection stops at
  \<open>max_output_size\<close> boxes. The threshold has to lie in [0, 1] and there is one score
  per box.\<close>

fun iou :: "vec4 \<Rightarrow> vec4 \<Rightarrow> real" where
  "iou (i0, i1, i2, i3) (j0, j1, j2, j3) =
     (let ymin_i = min i0 i2; xmin_i = min i1 i3;
          ymax_i = max i0 i2; xmax_i = max i1 i3;
          ymin_j = min j0 j2; xmin_j = min j1 j3;
          ymax_j = max j0 j2; xmax_j = max j1 j3;
          area_i = (ymax_i - ymin_i) * (xmax_i - xmin_i);
          area_j = (ymax_j - ymin_j) * (xmax_j - xmin_j)
      in if area_i \<le> 0 \<or> area_j \<le> 0 then 0
         else (let intersection_ymin = max ymin_i ymin_j;
                   intersection_xmin = max xmin_i xmin_j;
                   intersection_ymax = min ymax_i ymax_j;
                   intersection_xmax = min xmax_i xmax_j;
                   intersection_area = max (intersection_ymax - intersection_ymin) 0
                                     * max (intersection_xmax - intersection_xmin) 0
               in intersection_area / (area_i + area_j - intersection_area)))"

fun nms_loop :: "vec4 list \<Rightarrow> real \<Rightarrow> nat \<Rightarrow> nat list \<Rightarrow> nat list \<Rightarrow> nat list" where
  "nms_loop bs thr cap [] selected = selected"
| "nms_loop bs thr cap (c # cs) selected =
     (if cap \<le> length selected then selected
      else if list_ex (\<lambda>j. thr < iou (bs ! c) (bs ! j)) selected
      then nms_loop bs thr cap cs selected
      else nms_loop bs thr cap cs (selected @ [c]))"

definition nms_order :: "real list \<Rightarrow> nat list" where
  "nms_order scs = sort_key (\<lambda>i. - (scs ! i)) [0..<length scs]"

definition non_max_suppression :: "vec4 list \<Rightarrow> real list \<Rightarrow> nat \<Rightarrow> real \<Rightarrow> error + nat list" where
  "non_max_suppression bs scs max_output_size iou_threshold =
     (if length bs \<noteq> length scs then Inl InvalidArgument
      else if iou_threshold < 0 \<or> 1 < iou_threshold then Inl InvalidArgument
      else Inr (nms_loop bs iou_threshold max_output_size (nms_order scs) []))"

text \<open>\<open>tf.reduce_max\<close> of all elements: no real number (minus infinity) on no element.\<close>

definition reduce_max :: "real list \<Rightarrow> real option" where
  "reduce_max xs = (if xs = [] then None else Some (Max (set xs)))"

fun add_offset :: "vec4 \<Rightarrow> real \<Rightarrow> vec4" where
  "add_offset (a, b, c, d) off = (a + off, b + off, c + off, d + off)"

text \<open>Lines 106 and 107: the tensor transposed to class-major order, without the
  background class 0. Row \<open>c\<close> of the result is class \<open>c + 1\<close>.\<close>

definition class_major :: "nat \<Rightarrow> 'a tensor \<Rightarrow> 'a list list" where
  "class_major num_class t = map (\<lambda>c. map (\<lambda>r. r ! c) (rows t)) [1..<num_class]"

text \<open>Line 110: \<open>tf.where\<close> on the class-major score matrix, the index pairs (class row,
  proposal) of the scores above the threshold, in row-major order.\<close>

definition filtered_ids_of :: "real \<Rightarrow> real list list \<Rightarrow> nat \<Rightarrow> (nat \<times> nat) list" where
  "filtered_ids_of thresh scores' n =
     filter (\<lambda>(c, i). thresh < scores' ! c ! i) (List.product [0..<length scores'] [0..<n])"

text \<open>Lines 113 to 117: the boxes handed to the suppression, each moved by its class row
  times \<open>max_coord + 1\<close>. Without any box there is no maximum and no candidate. The sums
  are those of real numbers: they are the float32 sums of the code where these are exact
  (see \<open>float32_exact\<close> below), and beyond that range the code rounds them.\<close>

definition offset_boxes :: "real option \<Rightarrow> (nat \<times> nat) list \<Rightarrow> vec4 list \<Rightarrow> vec4 list" where
  "offset_boxes max_coord filtered_ids filtered_boxes =
     (case max_coord of
        None \<Rightarrow> []
      | Some m \<Rightarrow>
          (let cls_per_box = map fst filtered_ids;
               offsets = map (\<lambda>c. real c * (m + 1)) cls_per_box
           in map2 add_offset filtered_boxes offsets))"

definition boxclass_predictions ::
  "config \<Rightarrow> vec4 tensor \<Rightarrow> real tensor \<Rightarrow> error + (vec4 list \<times> real list \<times> nat list \<times> nat list)" where
  "boxclass_predictions cfg boxes scores =
     (if shape1 boxes \<noteq> NUM_CLASS cfg then Inl AssertionError
      else if shape1 scores \<noteq> NUM_CLASS cfg then Inl AssertionError
      else
        (let boxes' = class_major (NUM_CLASS cfg) boxes;
             scores' = class_major (NUM_CLASS cfg) scores;
             max_coord = reduce_max (concat (map list_of_quad (concat boxes')));
             filtered_ids = filtered_ids_of (RESULT_SCORE_THRESH cfg) scores' (length (rows scores))
         in bind_e (gather_nd boxes' filtered_ids) (\<lambda>filtered_boxes.
            bind_e (gather_nd scores' filtered_ids) (\<lambda>filtered_scores.
            bind_e (non_max_suppression (offset_boxes max_coord filtered_ids filtered_boxes)
                      filtered_scores (RESULTS_PER_IM cfg) (FRCNN_NMS_THRESH cfg)) (\<lambda>selection.
            bind_e (gather filtered_ids selection) (\<lambda>filtered_selection.
              let box_ids = map snd filtered_selection
              in bind_e (gather filtered_scores selection) (\<lambda>final_scores.
                 bind_e (gather (map fst filtered_ids) selection) (\<lambda>cls.
                   let final_labels = map (\<lambda>c. c + 1) cls
                   in bind_e (gather filtered_boxes selection) (\<lambda>final_boxes.
                        Inr (final_boxes, final_scores, final_labels, box_ids))))))))))"

text \<open>Tensors of matching shapes and a valid suppression threshold.\<close>

definition predictions_inputs_ok :: "config \<Rightarrow> vec4 tensor \<Rightarrow> real tensor \<Rightarrow> bool" where
  "predictions_inputs_ok cfg boxes scores =
     (wf_tensor boxes \<and> wf_tensor scores
      \<and> shape1 boxes = NUM_CLASS cfg \<and> shape1 scores = NUM_CLASS cfg
      \<and> length (rows boxes) = length (rows scores)
      \<and> 0 \<le> FRCNN_NMS_THRESH cfg \<and> FRCNN_NMS_THRESH cfg \<le> 1)"

text \<open>Names for the intermediate values of \<open>boxclass_predictions\<close>: the index pairs
  that pass the score threshold, the two arguments of the suppression and its result.\<close>

definition candidates :: "config \<Rightarrow> real tensor \<Rightarrow> (nat \<times> nat) list" where
  "candidates cfg scores =
     filtered_ids_of (RESULT_SCORE_THRESH cfg) (class_major (NUM_CLASS cfg) scores)
       (length (rows scores))"

definition max_coord_of :: "config \<Rightarrow> vec4 tensor \<Rightarrow> real option" where
  "max_coord_of cfg boxes =
     reduce_max (concat (map list_of_quad (concat (class_major (NUM_CLASS cfg) boxes))))"

definition nms_boxes :: "config \<Rightarrow> vec4 tensor \<Rightarrow> real tensor \<Rightarrow> vec4 list" where
  "nms_boxes cfg boxes scores =
     offset_boxes (max_coord_of cfg boxes) (candidates cfg scores)
       (map (\<lambda>(c, i). class_major (NUM_CLASS cfg) boxes ! c ! i) (candidates cfg scores))"

definition nms_scores :: "config \<Rightarrow> real tensor \<Rightarrow> real list" where
  "nms_scores cfg scores =
     map (\<lambda>(c, i). class_major (NUM_CLASS cfg) scores ! c ! i) (candidates cfg scores)"

definition selection_of :: "config \<Rightarrow> vec4 tensor \<Rightarrow> real tensor \<Rightarrow> nat list" where
  "selection_of cfg boxes scores =
     nms_loop (nms_boxes cfg boxes scores) (FRCNN_NMS_THRESH cfg) (RESULTS_PER_IM cfg)
       (nms_order (nms_scores cfg scores)) []"



text \<open>An example batch of two proposals and three classes: the boxes of proposal 0 for
  the classes 1 and 2 coincide, and the boxes of the two proposals for class 1 overlap.\<close>

definition example_cfg :: config where
  "example_cfg = \<lparr>NUM_CLASS = 3, RESULT_SCORE_THRESH = 1 / 2, RESULTS_PER_IM = 100,
                  FRCNN_NMS_THRESH = 1 / 2\<rparr>"

definition example_boxes :: "vec4 tensor" where
  "example_boxes = \<lparr>shape1 = 3,
     rows = [[(0, 0, 1, 1), (0, 0, 10, 10), (0, 0, 10, 10)],
             [(0, 0, 1, 1), (0, 0, 10, 9), (20, 20, 30, 30)]]\<rparr>"

definition example_scores :: "real tensor" where
  "example_scores = \<lparr>shape1 = 3, rows = [[1 / 10, 9 / 10, 6 / 10], [2 / 10, 8 / 10, 95 / 100]]\<rparr>"






subsection \<open>BoxClassHead\<close>

record training_info =
  gt_boxes :: "vec4 list list"
  proposal_labels :: "int list"
  proposal_fg_inds :: "int list"
  proposal_fg_boxes :: "(real \<times> vec4) list"
  proposal_fg_labels :: "int list"
  proposal_gt_id_for_each_fg :: "int list list"

text \<open>The fields of a \<open>BoxClassHead\<close>. A proposal box (a row of 5 numbers) is the pair of
  its image index and its 4 coordinates. The fields that \<open>add_training_info\<close> sets exist
  only after it has been called: \<open>training = None\<close> before.\<close>

record head =
  box_logits :: "vec4 tensor"
  label_logits :: "real tensor"
  bbox_regression_weights :: vec4
  prepadding_gt_counts :: "nat list"
  proposal_boxes :: "(real \<times> vec4) list"
  training :: "training_info option"

definition training_info_available :: "head \<Rightarrow> bool" where
  "training_info_available h = (training h \<noteq> None)"

definition add_training_info :: "head \<Rightarrow> training_info \<Rightarrow> head" where
  "add_training_info h t = h\<lparr>training := Some t\<rparr>"

subsection \<open>BoxClassHead.losses\<close>

text \<open>Modelled from the spec: \<open>encode_bbox_target\<close> (model_box.py) is not among the
  sources. BoxCoder.encode maps a ground-truth box and its anchor box to a regression
  target, pair by pair; the transform of one pair is the parameter \<open>enc\<close>.\<close>

definition encode_bbox_target ::
  "(vec4 \<Rightarrow> vec4 \<Rightarrow> vec4) \<Rightarrow> vec4 list \<Rightarrow> vec4 list \<Rightarrow> error + vec4 list" where
  "encode_bbox_target enc boxes anchors =
     (if length boxes = length anchors then Inr (map2 enc boxes anchors)
      else Inl InvalidArgument)"

fun mul4 :: "vec4 \<Rightarrow> vec4 \<Rightarrow> vec4" where
  "mul4 (a, b, c, d) (w0, w1, w2, w3) = (a * w0, b * w1, c * w2, d * w3)"

text \<open>\<open>xs[i]\<close> on a Python list and on a tensor.\<close>

definition py_index :: "'a list \<Rightarrow> nat \<Rightarrow> error + 'a" where
  "py_index xs i = (if i < length xs then Inr (xs ! i) else Inl IndexError)"

definition tensor_index :: "'a list \<Rightarrow> nat \<Rightarrow> error + 'a" where
  "tensor_index xs i = (if i < length xs then Inr (xs ! i) else Inl InvalidArgument)"

text \<open>\<open>tf.concat(values, axis=0)\<close>: an empty list of tensors is rejected.\<close>

definition tf_concat :: "'a list list \<Rightarrow> error + 'a list" where
  "tf_concat values = (if values = [] then Inl ValueError else Inr (concat values))"

text \<open>The body of the loop of \<open>losses\<close> (lines 281 to 298) for image \<open>i\<close>: the labels,
  the label logits, the encoded foreground targets and the foreground box logits of the
  image.\<close>

definition resolve_image ::
  "(vec4 \<Rightarrow> vec4 \<Rightarrow> vec4) \<Rightarrow> head \<Rightarrow> training_info \<Rightarrow> nat
    \<Rightarrow> error + (int list \<times> real list list \<times> vec4 list \<times> vec4 list list)" where
  "resolve_image enc h t i =
     bind_e (py_index (proposal_gt_id_for_each_fg t) i) (\<lambda>single_image_fg_inds_wrt_gt.
     bind_e (tensor_index (gt_boxes t) i) (\<lambda>gt_i.
     bind_e (tensor_index (prepadding_gt_counts h) i) (\<lambda>count.
       let single_image_gt_boxes = take count gt_i
       in bind_e (gather_int single_image_gt_boxes single_image_fg_inds_wrt_gt) (\<lambda>gt_for_each_fg.
       let single_image_fg_boxes_indices =
             tf_where (map (\<lambda>b. fst b = real i) (proposal_fg_boxes t))
       in bind_e (gather (proposal_fg_boxes t) single_image_fg_boxes_indices) (\<lambda>fg5.
       let single_image_fg_boxes = map snd fg5
       in bind_e (encode_bbox_target enc gt_for_each_fg single_image_fg_boxes) (\<lambda>encoded.
       let encoded_fg_gt_boxes = map (\<lambda>v. mul4 v (bbox_regression_weights h)) encoded;
           single_image_box_indices = tf_where (map (\<lambda>b. fst b = real i) (proposal_boxes h))
       in bind_e (gather (proposal_labels t) single_image_box_indices) (\<lambda>single_image_labels.
          bind_e (gather (rows (label_logits h)) single_image_box_indices) (\<lambda>single_image_label_logits.
          bind_e (gather (proposal_fg_inds t) single_image_fg_boxes_indices) (\<lambda>single_image_fg_box_logits_indices.
          bind_e (gather_int (rows (box_logits h)) single_image_fg_box_logits_indices) (\<lambda>single_image_fg_box_logits.
            Inr (single_image_labels, single_image_label_logits,
                 encoded_fg_gt_boxes, single_image_fg_box_logits)))))))))))"

fun resolve_images ::
  "(vec4 \<Rightarrow> vec4 \<Rightarrow> vec4) \<Rightarrow> head \<Rightarrow> training_info \<Rightarrow> nat list
    \<Rightarrow> error + (int list \<times> real list list \<times> vec4 list \<times> vec4 list list) list" where
  "resolve_images enc h t [] = Inr []"
| "resolve_images enc h t (i # is) =
     bind_e (resolve_image enc h t i) (\<lambda>x.
     bind_e (resolve_images enc h t is) (\<lambda>xs. Inr (x # xs)))"

text \<open>The loop over \<open>range(batch_size_per_gpu)\<close> and the four concatenations.\<close>

definition resolve_batch ::
  "(vec4 \<Rightarrow> vec4 \<Rightarrow> vec4) \<Rightarrow> head \<Rightarrow> training_info \<Rightarrow> nat
    \<Rightarrow> error + (int list \<times> real list list \<times> vec4 list \<times> vec4 list list)" where
  "resolve_batch enc h t batch_size_per_gpu =
     bind_e (resolve_images enc h t [0..<batch_size_per_gpu]) (\<lambda>per_image.
     bind_e (tf_concat (map (\<lambda>(l, g, e, f). l) per_image)) (\<lambda>all_labels.
     bind_e (tf_concat (map (\<lambda>(l, g, e, f). g) per_image)) (\<lambda>all_label_logits.
     bind_e (tf_concat (map (\<lambda>(l, g, e, f). e) per_image)) (\<lambda>all_encoded_fg_gt_boxes.
     bind_e (tf_concat (map (\<lambda>(l, g, e, f). f) per_image)) (\<lambda>all_fg_box_logits.
       Inr (all_labels, all_label_logits, all_encoded_fg_gt_boxes, all_fg_box_logits))))))"

text \<open>\<open>losses\<close> with its default \<open>shortcut=False\<close>. The debugging branch
  \<open>shortcut=True\<close>, a sum of the means of the inputs, is not embedded.\<close>

definition losses :: "(vec4 \<Rightarrow> vec4 \<Rightarrow> vec4) \<Rightarrow> head \<Rightarrow> nat \<Rightarrow> error + loss_summary" where
  "losses enc h batch_size_per_gpu =
     (case training h of
        None \<Rightarrow> Inl AssertionError
      | Some t \<Rightarrow>
          bind_e (resolve_batch enc h t batch_size_per_gpu)
            (\<lambda>(all_labels, all_label_logits, all_encoded_fg_gt_boxes, all_fg_box_logits).
               boxclass_losses all_labels
                 \<lparr>shape1 = shape1 (label_logits h), rows = all_label_logits\<rparr>
                 all_encoded_fg_gt_boxes
                 \<lparr>shape1 = shape1 (box_logits h), rows = all_fg_box_logits\<rparr>))"

text \<open>Inputs of matching shapes for a batch of \<open>B\<close> images: per image a list of
  ground-truth indices, one per foreground box of the image and each within the valid
  ground-truth boxes; one label and one logit row per proposal; one proposal index per
  foreground box. The image indices themselves are not constrained.\<close>

definition resolver_inputs_ok :: "head \<Rightarrow> training_info \<Rightarrow> nat \<Rightarrow> bool" where
  "resolver_inputs_ok h t B =
     (0 < B
      \<and> B \<le> length (proposal_gt_id_for_each_fg t)
      \<and> B \<le> length (gt_boxes t)
      \<and> B \<le> length (prepadding_gt_counts h)
      \<and> length (proposal_labels t) = length (proposal_boxes h)
      \<and> length (rows (label_logits h)) = length (proposal_boxes h)
      \<and> length (proposal_fg_inds t) = length (proposal_fg_boxes t)
      \<and> list_all (\<lambda>j. 0 \<le> j \<and> j < int (length (rows (box_logits h)))) (proposal_fg_inds t)
      \<and> list_all (\<lambda>i.
            list_all (\<lambda>g. 0 \<le> g \<and> g < int (min (prepadding_gt_counts h ! i) (length (gt_boxes t ! i))))
              (proposal_gt_id_for_each_fg t ! i)
            \<and> length (proposal_gt_id_for_each_fg t ! i)
                = length (filter (\<lambda>b. fst b = real i) (proposal_fg_boxes t)))
          [0..<B])"

subsection \<open>BoxClassHead.decoded_output_boxes_batch\<close>

text \<open>Modelled from the spec: \<open>decode_bbox_target\<close> (model_box.py) is not among the
  sources. BoxCoder.decode is applied per (proposal, class) pair to regression logits and
  anchors of one shape; the transform of one pair is the parameter \<open>dec\<close>.\<close>

definition decode_bbox_target ::
  "('a \<Rightarrow> vec4 \<Rightarrow> 'b) \<Rightarrow> 'a list list \<Rightarrow> vec4 list list \<Rightarrow> error + 'b list list" where
  "decode_bbox_target dec box_predictions anchors =
     (if map length box_predictions = map length anchors
      then Inr (map2 (map2 dec) box_predictions anchors)
      else Inl InvalidArgument)"

fun div4 :: "vec4 \<Rightarrow> vec4 \<Rightarrow> tf_float quad" where
  "div4 (a, b, c, d) (w0, w1, w2, w3) = (tf_div a w0, tf_div b w1, tf_div c w2, tf_div d w3)"

text \<open>Lines 318 and 319: \<open>tf.tile(tf.expand_dims(boxes, 1), [1, cfg.DATA.NUM_CLASS, 1])\<close>.\<close>

definition decode_anchors :: "config \<Rightarrow> vec4 list \<Rightarrow> vec4 list list" where
  "decode_anchors cfg nobatch_proposal_boxes =
     map (\<lambda>b. replicate (NUM_CLASS cfg) b) nobatch_proposal_boxes"

definition decoded_output_boxes_batch ::
  "(tf_float quad \<Rightarrow> vec4 \<Rightarrow> 'b) \<Rightarrow> config \<Rightarrow> head \<Rightarrow> error + ('b list list \<times> real list)" where
  "decoded_output_boxes_batch dec cfg h =
     (let batch_ids = map fst (proposal_boxes h);
          nobatch_proposal_boxes = map snd (proposal_boxes h);
          anchors = decode_anchors cfg nobatch_proposal_boxes
      in bind_e (decode_bbox_target dec
                  (map (map (\<lambda>v. div4 v (bbox_regression_weights h))) (rows (box_logits h)))
                  anchors) (\<lambda>decoded_boxes.
           Inr (decoded_boxes, batch_ids)))"

text \<open>A batch of one image with two foreground proposals, the second tagged with the
  image index 7; \<open>example_enc\<close> stands in for BoxCoder.encode.\<close>

fun example_enc :: "vec4 \<Rightarrow> vec4 \<Rightarrow> vec4" where
  "example_enc (a, b, c, d) (a', b', c', d') = (a - a', b - b', c - c', d - d')"

definition stray_info :: training_info where
  "stray_info = \<lparr>gt_boxes = [[(1, 1, 5, 5)]], proposal_labels = [1, 1], proposal_fg_inds = [0, 1],
     proposal_fg_boxes = [(0, (0, 0, 4, 4)), (7, (1, 1, 5, 5))], proposal_fg_labels = [1, 1],
     proposal_gt_id_for_each_fg = [[0]]\<rparr>"

definition stray_head :: head where
  "stray_head = \<lparr>box_logits = \<lparr>shape1 = 2, rows = [[(0, 0, 0, 0), (1, 1, 1, 1)], [(2, 2, 2, 2), (3, 3, 3, 3)]]\<rparr>,
     label_logits = \<lparr>shape1 = 2, rows = [[0, 0], [0, 0]]\<rparr>,
     bbox_regression_weights = (10, 10, 5, 5), prepadding_gt_counts = [1],
     proposal_boxes = [(0, (0, 0, 4, 4)), (7, (1, 1, 5, 5))], training = Some stray_info\<rparr>"

text \<open>A class-agnostic head (one class slot) with two proposals, and a head with one slot
  per class of \<open>example_cfg\<close>.\<close>

definition agnostic_head :: head where
  "agnostic_head = \<lparr>box_logits = \<lparr>shape1 = 1, rows = [[(10, 10, 5, 5)], [(20, 20, 10, 10)]]\<rparr>,
     label_logits = \<lparr>shape1 = 3, rows = [[0, 0, 0], [0, 0, 0]]\<rparr>,
     bbox_regression_weights = (10, 10, 5, 5), prepadding_gt_counts = [],
     proposal_boxes = [(0, (0, 0, 4, 4)), (1, (1, 1, 5, 5))], training = None\<rparr>"

definition per_class_head :: head where
  "per_class_head = \<lparr>box_logits = \<lparr>shape1 = 3, rows = [[(0, 0, 0, 0), (10, 10, 5, 5), (20, 20, 10, 10)]]\<rparr>,
     label_logits = \<lparr>shape1 = 3, rows = [[0, 0, 0]]\<rparr>,
     bbox_regression_weights = (10, 10, 5, 5), prepadding_gt_counts = [],
     proposal_boxes = [(1, (0, 0, 4, 4))], training = None\<rparr>"

section \<open>Properties\<close>

subsection \<open>Error results\<close>

lemma bind_e_Inr [simp]: "bind_e (Inr x) f = f x"
  by (simp add: bind_e_def)

lemma bind_e_Inl [simp]: "bind_e (Inl e) f = Inl e"
  by (simp add: bind_e_def)

lemma bind_e_eq_Inr: "(bind_e m f = Inr y) = (\<exists>x. m = Inr x \<and> f x = Inr y)"
  by (cases m) auto

subsection \<open>boxclass_losses\<close>

lemma nth_filter_upt: "map (\<lambda>j. xs ! j) (filter (\<lambda>j. P (xs ! j)) [0..<length xs]) = filter P xs"
proof -
  have "filter P xs = filter P (map (\<lambda>j. xs ! j) [0..<length xs])"
    by (simp add: map_nth)
  also have "\<dots> = map (\<lambda>j. xs ! j) (filter (\<lambda>j. P (xs ! j)) [0..<length xs])"
    by (simp add: filter_map comp_def)
  finally show ?thesis by simp
qed

lemma tf_where_map: "tf_where (map P xs) = filter (\<lambda>j. P (xs ! j)) [0..<length xs]"
  by (auto simp: tf_where_def intro: filter_cong)

lemma fg_labels_filter:
  "map (\<lambda>j. labels ! j) (fg_inds_of labels) = filter (\<lambda>l. 0 < l) labels"
  by (simp add: fg_inds_of_def tf_where_map nth_filter_upt)

lemma length_fg_inds_of: "length (fg_inds_of labels) = length (filter (\<lambda>l. 0 < l) labels)"
  using arg_cong [OF fg_labels_filter [of labels], of length] by simp

lemma fg_inds_of_bound: "j \<in> set (fg_inds_of labels) \<Longrightarrow> j < length labels"
  by (simp add: fg_inds_of_def tf_where_map)

lemma fg_inds_of_empty: "\<forall>l \<in> set labels. \<not> 0 < l \<Longrightarrow> fg_inds_of labels = []"
  by (auto simp: fg_inds_of_def tf_where_map filter_empty_conv)

lemma select_per_class:
  assumes "1 < shape1 t" "wf_tensor t"
    and "length (filter (\<lambda>l. 0 < l) labels) \<le> length (rows t)"
    and "\<forall>l \<in> set labels. l < int (shape1 t)"
  shows "select_fg_box_logits labels t =
     Inr (map (\<lambda>(i, l). rows t ! i ! nat l)
            (zip [0..<length (filter (\<lambda>l. 0 < l) labels)] (filter (\<lambda>l. 0 < l) labels)))"
proof -
  let ?fg = "filter (\<lambda>l. 0 < l) labels"
  have ok: "list_all (\<lambda>(r, c). r < length (rows t) \<and> c < length (rows t ! r))
              (zip [0..<length ?fg] (map nat ?fg))"
    unfolding list_all_iff
  proof (clarify)
    fix r c assume "(r, c) \<in> set (zip [0..<length ?fg] (map nat ?fg))"
    then have r: "r < length ?fg" and c: "c \<in> nat ` set ?fg"
      by (auto dest: set_zip_leftD set_zip_rightD)
    from r assms(3) have r': "r < length (rows t)" by simp
    with assms(2) have "length (rows t ! r) = shape1 t"
      by (simp add: wf_tensor_def list_all_length)
    moreover from c assms(4) have "c < shape1 t" by auto
    ultimately show "r < length (rows t) \<and> c < length (rows t ! r)" using r' by simp
  qed
  have m: "map (\<lambda>(r, c). rows t ! r ! c) (zip [0..<length ?fg] (map nat ?fg))
      = map (\<lambda>(i, l). rows t ! i ! nat l) (zip [0..<length ?fg] ?fg)"
    by (simp add: zip_map2 case_prod_unfold comp_def)
  show ?thesis
    unfolding select_fg_box_logits_def Let_def fg_labels_filter length_fg_inds_of
    using assms(1) ok m by (simp add: gather_nd_def)
qed

lemma concat_singletons: "list_all (\<lambda>r. length r = 1) xs \<Longrightarrow> concat xs = map hd xs"
proof (induction xs)
  case Nil
  show ?case by simp
next
  case (Cons r xs)
  then obtain a where "r = [a]" by (cases r) auto
  with Cons show ?case by simp
qed

lemma select_class_agnostic:
  assumes "shape1 t = 1" "wf_tensor t"
  shows "select_fg_box_logits labels t = Inr (map hd (rows t))"
  using assms concat_singletons [of "rows t"]
  by (simp add: select_fg_box_logits_def wf_tensor_def Let_def)

lemma gather_Inr: "\<forall>j \<in> set idx. j < length ps \<Longrightarrow> gather ps idx = Inr (map (\<lambda>j. ps ! j) idx)"
  by (simp add: gather_def list_all_iff)

lemma gather_fg:
  "length labels \<le> length xs \<Longrightarrow>
   gather xs (fg_inds_of labels) = Inr (map (\<lambda>j. xs ! j) (fg_inds_of labels))"
  by (rule gather_Inr) (use fg_inds_of_bound [of _ labels] in force)

lemma label_metrics_ok:
  assumes "0 < shape1 ll" "length labels = length (rows ll)"
  shows "\<exists>a fa fn. label_metrics labels ll = Inr (a, fa, fn)"
  using assms
  by (simp add: label_metrics_def Let_def argmax_def broadcast_rows_def gather_fg)

lemma label_metrics_no_fg:
  assumes "\<forall>l \<in> set labels. \<not> 0 < l" and "label_metrics labels ll = Inr (a, fa, fn)"
  shows "fa = Finite 0 \<and> fn = Finite 0"
  using assms(2) fg_inds_of_empty [OF assms(1)]
  by (auto simp: label_metrics_def Let_def bind_e_eq_Inr tf_where_scalar_def)

lemma select_ok:
  assumes "losses_inputs_ok labels ll fg_boxes fbl"
  shows "\<exists>sel. select_fg_box_logits labels fbl = Inr sel \<and> length sel = length fg_boxes"
proof (cases "1 < shape1 fbl")
  case True
  with assms show ?thesis
    using select_per_class [of fbl labels]
    by (simp add: losses_inputs_ok_def list_all_iff)
next
  case False
  with assms have "shape1 fbl = 1" by (simp add: losses_inputs_ok_def)
  with assms show ?thesis
    using select_class_agnostic [of fbl labels]
    by (simp add: losses_inputs_ok_def)
qed

lemma huber_textbook:
  "huber x y = (if \<bar>y - x\<bar> \<le> 1 then (y - x) ^ 2 / 2 else \<bar>y - x\<bar> - 1 / 2)"
  by (simp add: huber_def Let_def min_def power2_eq_square)

lemma huber_nonneg: "0 \<le> huber x y"
  by (simp add: huber_textbook)

lemma huber_rows_flat:
  "length ls = length ps \<Longrightarrow>
   sum_list (map (\<lambda>(l, p). sum_list (map2 huber (list_of_quad l) (list_of_quad p))) (zip ls ps))
   = sum_list (map (\<lambda>(x, y). huber x y) (zip (concat (map list_of_quad ls)) (concat (map list_of_quad ps))))"
proof (induction ls ps rule: list_induct2)
  case Nil
  show ?case by simp
next
  case (Cons l ls p ps)
  obtain a b c d where l: "l = (a, b, c, d)" by (cases l) auto
  obtain a' b' c' d' where p: "p = (a', b', c', d')" by (cases p) auto
  from Cons show ?case by (simp add: l p)
qed

lemma huber_loss_sum_eq:
  "length ls = length ps \<Longrightarrow>
   huber_loss_sum ls ps = Inr (sum_list (map (\<lambda>(x, y). huber x y)
      (zip (concat (map list_of_quad ls)) (concat (map list_of_quad ps)))))"
  by (simp add: huber_loss_sum_def broadcast_rows_def huber_rows_flat)

lemma ce_ok:
  assumes "losses_inputs_ok labels ll fg_boxes fbl"
  shows "\<exists>ce. sparse_softmax_cross_entropy_with_logits labels ll = Inr ce"
  using assms by (simp add: losses_inputs_ok_def sparse_softmax_cross_entropy_with_logits_def)

lemma boxclass_losses_ok:
  assumes ok: "losses_inputs_ok labels ll fg_boxes fbl"
  shows "\<exists>r sel. boxclass_losses labels ll fg_boxes fbl = Inr r
      \<and> select_fg_box_logits labels fbl = Inr sel
      \<and> length sel = length fg_boxes
      \<and> box_loss r = tf_div (sum_list (map (\<lambda>(x, y). huber x y)
            (zip (concat (map list_of_quad fg_boxes)) (concat (map list_of_quad sel)))))
          (real (length labels))"
proof -
  from ce_ok [OF ok] obtain ce where ce: "sparse_softmax_cross_entropy_with_logits labels ll = Inr ce" ..
  from select_ok [OF ok] obtain sel where sel: "select_fg_box_logits labels fbl = Inr sel"
    and len: "length sel = length fg_boxes" by blast
  from ok have "0 < shape1 ll" "length labels = length (rows ll)"
    by (simp_all add: losses_inputs_ok_def)
  from label_metrics_ok [OF this] obtain a fa fn where lm: "label_metrics labels ll = Inr (a, fa, fn)"
    by blast
  from len have hl: "huber_loss_sum fg_boxes sel = Inr (sum_list (map (\<lambda>(x, y). huber x y)
      (zip (concat (map list_of_quad fg_boxes)) (concat (map list_of_quad sel)))))"
    by (simp add: huber_loss_sum_eq)
  show ?thesis
    by (simp add: boxclass_losses_def ce sel lm hl len)
qed

lemma length_filter_split: "length xs = length (filter P xs) + length (filter (\<lambda>x. \<not> P x) xs)"
  by (induction xs) auto

text \<open>
  Claim C4. When the regression-logit tensor has more than one class slot, the row used for
  the i-th foreground proposal is the one at the index pair (i, ground-truth label of that
  proposal); the gather succeeds when there is a row for every foreground label and every
  label is a class slot. With exactly one class slot the single row of every proposal is
  used as it is, whatever the labels are.
\<close>

theorem regression_logit_selection:
  assumes "wf_tensor t"
  shows "(1 < shape1 t \<and> length (filter (\<lambda>l. 0 < l) labels) \<le> length (rows t)
            \<and> (\<forall>l \<in> set labels. l < int (shape1 t))
          \<longrightarrow> select_fg_box_logits labels t =
               Inr (map (\<lambda>(i, l). rows t ! i ! nat l)
                     (zip [0..<length (filter (\<lambda>l. 0 < l) labels)] (filter (\<lambda>l. 0 < l) labels))))
       \<and> (shape1 t = 1 \<longrightarrow> select_fg_box_logits labels t = Inr (map hd (rows t)))"
  using assms select_per_class [of t labels] select_class_agnostic [of t labels] by blast

theorem regression_logit_selection_witness:
  "select_fg_box_logits [0, 2, 1]
      \<lparr>shape1 = 3, rows = [[(0,0,0,0), (1,1,1,1), (2,2,2,2)], [(3,3,3,3), (4,4,4,4), (5,5,5,5)]]\<rparr>
     = Inr [(2,2,2,2), (4,4,4,4)]
   \<and> select_fg_box_logits [0, 2, 1] \<lparr>shape1 = 1, rows = [[(6,6,6,6)], [(7,7,7,7)]]\<rparr>
     = Inr [(6,6,6,6), (7,7,7,7)]"
  using regression_logit_selection [of
      "\<lparr>shape1 = 3, rows = [[(0,0,0,0), (1,1,1,1), (2,2,2,2)], [(3,3,3,3), (4,4,4,4), (5,5,5,5)]]\<rparr>"
      "[0, 2, 1]"]
    regression_logit_selection [of "\<lparr>shape1 = 1, rows = [[(6,6,6,6)], [(7,7,7,7)]]\<rparr>" "[0, 2, 1]"]
  by (simp add: wf_tensor_def upt_rec)

text \<open>
  Claim C1. On inputs of matching shapes \<open>boxclass_losses\<close> returns, and its box loss is
  the Huber loss (half the squared error up to 1, the absolute error minus one half beyond)
  of the foreground targets against the selected foreground logits, summed over all
  elements and divided by the number of all labels, foreground and background together.
  With a positive sum and a background proposal it is not the sum over the foreground
  count.
\<close>

theorem box_loss_normalised_by_all_proposals:
  assumes ok: "losses_inputs_ok labels ll fg_boxes fbl"
  shows "\<exists>r sel s. boxclass_losses labels ll fg_boxes fbl = Inr r
      \<and> select_fg_box_logits labels fbl = Inr sel
      \<and> length sel = length fg_boxes
      \<and> s = sum_list (map (\<lambda>(x, y). if \<bar>y - x\<bar> \<le> 1 then (y - x) ^ 2 / 2 else \<bar>y - x\<bar> - 1 / 2)
               (zip (concat (map list_of_quad fg_boxes)) (concat (map list_of_quad sel))))
      \<and> box_loss r = tf_div s (real (length labels))
      \<and> length labels = length (filter (\<lambda>l. 0 < l) labels) + length (filter (\<lambda>l. \<not> 0 < l) labels)
      \<and> (labels \<noteq> [] \<longrightarrow> box_loss r = Finite (s / real (length labels)))
      \<and> (0 < s \<and> filter (\<lambda>l. \<not> 0 < l) labels \<noteq> []
           \<longrightarrow> box_loss r \<noteq> Finite (s / real (length (filter (\<lambda>l. 0 < l) labels))))"
proof -
  from boxclass_losses_ok [OF ok] obtain r sel where
    r: "boxclass_losses labels ll fg_boxes fbl = Inr r"
    and sel: "select_fg_box_logits labels fbl = Inr sel"
    and len: "length sel = length fg_boxes"
    and bl: "box_loss r = tf_div (sum_list (map (\<lambda>(x, y). huber x y)
            (zip (concat (map list_of_quad fg_boxes)) (concat (map list_of_quad sel)))))
          (real (length labels))" by blast
  define s where "s = sum_list (map (\<lambda>(x, y). if \<bar>y - x\<bar> \<le> 1 then (y - x) ^ 2 / 2 else \<bar>y - x\<bar> - 1 / 2)
               (zip (concat (map list_of_quad fg_boxes)) (concat (map list_of_quad sel))))"
  have hs: "(\<lambda>(x, y). huber x y) = (\<lambda>(x, y). if \<bar>y - x\<bar> \<le> 1 then (y - x) ^ 2 / 2 else \<bar>y - x\<bar> - 1 / 2)"
    by (simp add: huber_textbook fun_eq_iff)
  have bl': "box_loss r = tf_div s (real (length labels))"
    using bl unfolding s_def hs .
  have split: "length labels = length (filter (\<lambda>l. 0 < l) labels) + length (filter (\<lambda>l. \<not> 0 < l) labels)"
    by (rule length_filter_split)
  have fin: "labels \<noteq> [] \<longrightarrow> box_loss r = Finite (s / real (length labels))"
    by (simp add: bl' tf_div_def)
  have notfg: "0 < s \<and> filter (\<lambda>l. \<not> 0 < l) labels \<noteq> []
           \<longrightarrow> box_loss r \<noteq> Finite (s / real (length (filter (\<lambda>l. 0 < l) labels)))"
  proof
    assume a: "0 < s \<and> filter (\<lambda>l. \<not> 0 < l) labels \<noteq> []"
    let ?f = "length (filter (\<lambda>l. 0 < l) labels)"
    let ?n = "length labels"
    from a split have lt: "?f < ?n" by (cases "filter (\<lambda>l. \<not> 0 < l) labels") auto
    then have n0: "labels \<noteq> []" by auto
    have ne: "s / real ?n \<noteq> s / real ?f"
    proof (cases "?f = 0")
      case True
      with a lt show ?thesis by simp
    next
      case False
      then have fpos: "0 < real ?f" by simp
      moreover from n0 have "0 < real ?n" by simp
      ultimately have "0 < real ?n * real ?f" by (rule mult_pos_pos [rotated])
      with a lt have "s / real ?n < s / real ?f"
        by (intro divide_strict_left_mono) simp_all
      then show ?thesis by (rule less_imp_neq)
    qed
    with fin n0 show "box_loss r \<noteq> Finite (s / real ?f)" by simp
  qed
  from r sel len bl' split fin notfg s_def show ?thesis by blast
qed

theorem box_loss_normalised_by_all_proposals_witness:
  "losses_inputs_ok [0, 1] \<lparr>shape1 = 2, rows = [[0, 0], [0, 0]]\<rparr> [(0, 0, 0, 0)]
      \<lparr>shape1 = 2, rows = [[(9, 9, 9, 9), (1 / 2, 3, - 2, 0)]]\<rparr>
   \<and> (\<exists>r. boxclass_losses [0, 1] \<lparr>shape1 = 2, rows = [[0, 0], [0, 0]]\<rparr> [(0, 0, 0, 0)]
      \<lparr>shape1 = 2, rows = [[(9, 9, 9, 9), (1 / 2, 3, - 2, 0)]]\<rparr> = Inr r
      \<and> box_loss r = Finite (33 / 16))"
proof -
  have ok: "losses_inputs_ok [0, 1] \<lparr>shape1 = 2, rows = [[0, 0], [0, 0]]\<rparr> [(0, 0, 0, 0)]
      \<lparr>shape1 = 2, rows = [[(9, 9, 9, 9), (1 / 2, 3, - 2, 0)]]\<rparr>"
    by (simp add: losses_inputs_ok_def wf_tensor_def)
  have sel: "select_fg_box_logits [0, 1] \<lparr>shape1 = 2, rows = [[(9, 9, 9, 9), (1 / 2, 3, - 2, 0)]]\<rparr>
      = Inr [(1 / 2, 3, - 2, 0)]"
    by (simp add: select_fg_box_logits_def fg_inds_of_def tf_where_def Let_def gather_nd_def upt_rec)
  from box_loss_normalised_by_all_proposals [OF ok] sel ok show ?thesis
    by (auto simp: tf_div_def power2_eq_square)
qed

lemma boxclass_losses_no_fg:
  assumes "\<forall>l \<in> set labels. \<not> 0 < l" and "boxclass_losses labels ll fgb fbl = Inr r"
  shows "false_negative r = Finite 0 \<and> fg_accuracy r = Finite 0 \<and> num_fg_label r = 0"
proof -
  from assms(2) obtain a fa fn where lm: "label_metrics labels ll = Inr (a, fa, fn)"
    and r: "fg_accuracy r = fa" "false_negative r = fn"
      "num_fg_label r = real (length (fg_inds_of labels))"
    by (auto simp: boxclass_losses_def bind_e_eq_Inr)
  from label_metrics_no_fg [OF assms(1) lm] r fg_inds_of_empty [OF assms(1)]
  show ?thesis by simp
qed

lemma select_no_fg:
  assumes "\<forall>l \<in> set labels. \<not> 0 < l" and "1 < shape1 fbl"
  shows "select_fg_box_logits labels fbl = Inr []"
  using assms(2) fg_inds_of_empty [OF assms(1)]
  by (simp add: select_fg_box_logits_def Let_def gather_nd_def)

text \<open>
  Claim C3. Without a label above 0, every result of \<open>boxclass_losses\<close> has
  \<open>false_negative\<close> and \<open>fg_accuracy\<close> exactly 0, although the quotient that
  \<open>tf.where\<close> discards is NaN; the gather of the foreground logits returns no row
  and no error; and on inputs of matching shapes the function returns.
\<close>

theorem zero_foreground_diagnostics:
  assumes nofg: "\<forall>l \<in> set labels. \<not> 0 < l"
  shows "(\<forall>r. boxclass_losses labels ll fgb fbl = Inr r
            \<longrightarrow> false_negative r = Finite 0 \<and> fg_accuracy r = Finite 0)
       \<and> (1 < shape1 fbl \<longrightarrow> select_fg_box_logits labels fbl = Inr [])
       \<and> (losses_inputs_ok labels ll fgb fbl
            \<longrightarrow> (\<exists>r. boxclass_losses labels ll fgb fbl = Inr r
                  \<and> false_negative r = Finite 0 \<and> fg_accuracy r = Finite 0 \<and> num_fg_label r = 0)
               \<and> select_fg_box_logits labels fbl = Inr [])
       \<and> tf_div 0 (real (length (fg_inds_of labels))) = NaN"
proof (intro conjI allI impI)
  fix r assume "boxclass_losses labels ll fgb fbl = Inr r"
  from boxclass_losses_no_fg [OF nofg this]
  show "false_negative r = Finite 0" "fg_accuracy r = Finite 0" by simp_all
next
  assume "1 < shape1 fbl"
  then show "select_fg_box_logits labels fbl = Inr []" by (rule select_no_fg [OF nofg])
next
  assume ok: "losses_inputs_ok labels ll fgb fbl"
  from boxclass_losses_ok [OF ok] obtain r sel where
    r: "boxclass_losses labels ll fgb fbl = Inr r" by blast
  from boxclass_losses_no_fg [OF nofg r] r
  show "\<exists>r. boxclass_losses labels ll fgb fbl = Inr r
      \<and> false_negative r = Finite 0 \<and> fg_accuracy r = Finite 0 \<and> num_fg_label r = 0"
    by blast
next
  assume ok: "losses_inputs_ok labels ll fgb fbl"
  from select_ok [OF ok] obtain sel where sel: "select_fg_box_logits labels fbl = Inr sel"
    and len: "length sel = length fgb" by blast
  from ok nofg have "length fgb = 0"
    by (simp add: losses_inputs_ok_def filter_empty_conv [THEN iffD2])
  with len sel show "select_fg_box_logits labels fbl = Inr []" by simp
next
  show "tf_div 0 (real (length (fg_inds_of labels))) = NaN"
    using fg_inds_of_empty [OF nofg] by (simp add: tf_div_def)
qed

theorem zero_foreground_diagnostics_witness:
  "fg_inds_of [0, 0] = []
   \<and> losses_inputs_ok [0, 0] \<lparr>shape1 = 2, rows = [[0, 0], [0, 0]]\<rparr> [] \<lparr>shape1 = 2, rows = []\<rparr>
   \<and> (\<exists>r. boxclass_losses [0, 0] \<lparr>shape1 = 2, rows = [[0, 0], [0, 0]]\<rparr> [] \<lparr>shape1 = 2, rows = []\<rparr> = Inr r
        \<and> false_negative r = Finite 0 \<and> fg_accuracy r = Finite 0 \<and> num_fg_label r = 0)
   \<and> select_fg_box_logits [0, 0] \<lparr>shape1 = 2, rows = []\<rparr> = Inr []"
proof -
  have n: "\<forall>l \<in> set [0, 0 :: int]. \<not> 0 < l" by simp
  have ok: "losses_inputs_ok [0, 0] \<lparr>shape1 = 2, rows = [[0, 0], [0, 0]]\<rparr> [] \<lparr>shape1 = 2, rows = []\<rparr>"
    by (simp add: losses_inputs_ok_def wf_tensor_def)
  from zero_foreground_diagnostics [OF n, of "\<lparr>shape1 = 2, rows = [[0, 0], [0, 0]]\<rparr>" "[]"
      "\<lparr>shape1 = 2, rows = []\<rparr>"] ok fg_inds_of_empty [OF n]
  show ?thesis by blast
qed

subsection \<open>boxclass_predictions\<close>




text \<open>The greedy loop only appends to the selection, runs through a list and its continuation
  in turn, depends on the boxes alone and not on their positions, keeps the selected boxes
  pairwise below the threshold, and selects at most as many boxes as it is given.\<close>

lemma nms_loop_full: "cap \<le> length sel \<Longrightarrow> nms_loop bs thr cap cs sel = sel"
  by (cases cs) simp_all

lemma nms_loop_extends: "\<exists>ys. nms_loop bs thr cap cs sel = sel @ ys \<and> set ys \<subseteq> set cs"
proof (induction cs arbitrary: sel)
  case Nil
  show ?case by simp
next
  case (Cons c cs)
  from Cons [of sel] obtain ys where 1: "nms_loop bs thr cap cs sel = sel @ ys" "set ys \<subseteq> set cs"
    by blast
  from Cons [of "sel @ [c]"] obtain zs where
    2: "nms_loop bs thr cap cs (sel @ [c]) = (sel @ [c]) @ zs" "set zs \<subseteq> set cs" by blast
  from 2 have 3: "nms_loop bs thr cap cs (sel @ [c]) = sel @ (c # zs)" "set (c # zs) \<subseteq> set (c # cs)"
    by auto
  show ?case
  proof (cases "cap \<le> length sel")
    case True
    then show ?thesis by simp
  next
    case False
    show ?thesis
    proof (cases "list_ex (\<lambda>j. thr < iou (bs ! c) (bs ! j)) sel")
      case True
      with False 1 show ?thesis by auto
    next
      case no: False
      from False no have "nms_loop bs thr cap (c # cs) sel = sel @ (c # zs)" using 3(1) by simp
      with 3(2) show ?thesis by blast
    qed
  qed
qed

lemma nms_loop_subset: "set (nms_loop bs thr cap cs sel) \<subseteq> set sel \<union> set cs"
  using nms_loop_extends [of bs thr cap cs sel] by auto


lemma nms_loop_length: "length sel \<le> length (nms_loop bs thr cap cs sel)"
  using nms_loop_extends [of bs thr cap cs sel] by auto

lemma nms_loop_append:
  "nms_loop bs thr cap (xs @ ys) sel = nms_loop bs thr cap ys (nms_loop bs thr cap xs sel)"
proof (induction xs arbitrary: sel)
  case Nil
  show ?case by simp
next
  case (Cons c cs)
  show ?case
  proof (cases "cap \<le> length sel")
    case True
    then show ?thesis by (simp add: nms_loop_full)
  next
    case False
    then show ?thesis using Cons by simp
  qed
qed

lemma nms_loop_sim:
  assumes "map (\<lambda>i. bs ! i) cs = map (\<lambda>i. bs' ! i) cs'"
    and "map (\<lambda>i. bs ! i) sel = map (\<lambda>i. bs' ! i) sel'"
  shows "map (\<lambda>i. bs ! i) (nms_loop bs thr cap cs sel)
       = map (\<lambda>i. bs' ! i) (nms_loop bs' thr cap cs' sel')"
  using assms
proof (induction cs arbitrary: cs' sel sel')
  case Nil
  then show ?case by simp
next
  case (Cons c cs)
  from Cons.prems(1) obtain c' cs'' where cs': "cs' = c' # cs''"
    and c: "bs ! c = bs' ! c'" and rest: "map (\<lambda>i. bs ! i) cs = map (\<lambda>i. bs' ! i) cs''"
    by (cases cs') auto
  from Cons.prems(2) have len: "length sel = length sel'"
    using map_eq_imp_length_eq by blast
  have ex: "list_ex (\<lambda>j. thr < iou (bs ! c) (bs ! j)) sel
      = list_ex (\<lambda>j. thr < iou (bs' ! c') (bs' ! j)) sel'"
  proof -
    have "list_ex (\<lambda>j. thr < iou (bs ! c) (bs ! j)) sel
        = list_ex (\<lambda>b. thr < iou (bs ! c) b) (map (\<lambda>i. bs ! i) sel)"
      by (simp add: list_ex_iff)
    also have "\<dots> = list_ex (\<lambda>b. thr < iou (bs' ! c') b) (map (\<lambda>i. bs' ! i) sel')"
      by (simp only: Cons.prems(2) c)
    also have "\<dots> = list_ex (\<lambda>j. thr < iou (bs' ! c') (bs' ! j)) sel'"
      by (simp add: list_ex_iff)
    finally show ?thesis .
  qed
  have add: "map (\<lambda>i. bs ! i) (sel @ [c]) = map (\<lambda>i. bs' ! i) (sel' @ [c'])"
    using Cons.prems(2) c by simp
  show ?case
  proof (cases "cap \<le> length sel")
    case True
    with len have "cap \<le> length sel'" by simp
    with True Cons.prems(2) show ?thesis by (simp only: cs' nms_loop.simps if_True)
  next
    case False
    with len have F': "\<not> cap \<le> length sel'" by simp
    show ?thesis
    proof (cases "list_ex (\<lambda>j. thr < iou (bs ! c) (bs ! j)) sel")
      case True
      with ex have T': "list_ex (\<lambda>j. thr < iou (bs' ! c') (bs' ! j)) sel'" by simp
      from Cons.IH [OF rest Cons.prems(2)] show ?thesis
        by (simp only: cs' nms_loop.simps False F' True T' if_True if_False)
    next
      case no: False
      with ex have N': "\<not> list_ex (\<lambda>j. thr < iou (bs' ! c') (bs' ! j)) sel'" by simp
      from Cons.IH [OF rest add] show ?thesis
        by (simp only: cs' nms_loop.simps False F' no N' if_True if_False)
    qed
  qed
qed


text \<open>The order of the visit is a stable sort of the candidates by descending score. Removing
  the candidates at or below a score leaves a prefix of that order, hence a prefix of the
  selection.\<close>

lemma map_insort_key:
  "map g (insort_key (\<lambda>x. f (g x)) y zs) = insort_key f (g y) (map g zs)"
  by (induction zs) simp_all

lemma map_sort_key: "map g (sort_key (\<lambda>x. f (g x)) ys) = sort_key f (map g ys)"
  by (induction ys) (simp_all add: map_insort_key)

lemma insort_key_cong_set:
  "f y = g y \<Longrightarrow> \<forall>x \<in> set zs. f x = g x \<Longrightarrow> insort_key f y zs = insort_key g y zs"
  by (induction zs) simp_all

lemma sort_key_cong_set: "\<forall>x \<in> set xs. f x = g x \<Longrightarrow> sort_key f xs = sort_key g xs"
proof (induction xs)
  case Nil
  show ?case by simp
next
  case (Cons x xs)
  then have "sort_key f xs = sort_key g xs" by simp
  moreover have "insort_key f x (sort_key g xs) = insort_key g x (sort_key g xs)"
    by (rule insort_key_cong_set) (use Cons.prems in simp_all)
  ultimately show ?case by simp
qed

lemma set_nms_order: "set (nms_order scs) = {0..<length scs}"
  by (simp add: nms_order_def)

lemma nms_order_items:
  assumes "length bs = length scs"
  shows "map (\<lambda>i. zip bs scs ! i) (nms_order scs) = sort_key (\<lambda>(b, s). - s) (zip bs scs)"
proof -
  let ?it = "zip bs scs"
  have len: "length ?it = length scs" using assms by simp
  have "sort_key (\<lambda>i. - (scs ! i)) [0..<length scs]
      = sort_key (\<lambda>i. (\<lambda>(b, s). - s) (?it ! i)) [0..<length scs]"
    by (rule sort_key_cong_set) (use assms in simp)
  then have "map (\<lambda>i. ?it ! i) (nms_order scs)
      = map (\<lambda>i. ?it ! i) (sort_key (\<lambda>i. (\<lambda>(b, s). - s) (?it ! i)) [0..<length ?it])"
    by (simp only: nms_order_def len)
  also have "\<dots> = sort_key (\<lambda>(b, s). - s) (map (\<lambda>i. ?it ! i) [0..<length ?it])"
    by (rule map_sort_key)
  also have "\<dots> = sort_key (\<lambda>(b, s). - s) ?it" by (simp only: map_nth)
  finally show ?thesis .
qed

lemma filter_sorted_takeWhile:
  "sorted (map f xs) \<Longrightarrow> filter (\<lambda>x. f x < (a::real)) xs = takeWhile (\<lambda>x. f x < a) xs"
proof (induction xs)
  case Nil
  show ?case by simp
next
  case (Cons x xs)
  show ?case
  proof (cases "f x < a")
    case True
    with Cons show ?thesis by simp
  next
    case False
    from Cons.prems have "\<forall>y \<in> set xs. f x \<le> f y" by simp
    with False have "\<forall>y \<in> set xs. \<not> f y < a" by fastforce
    then have "filter (\<lambda>x. f x < a) xs = []" by (simp add: filter_empty_conv)
    with False show ?thesis by simp
  qed
qed

lemma sort_filter_prefix:
  fixes items :: "('b \<times> real) list"
  shows "sort_key (\<lambda>(b, s). - s) (filter (\<lambda>(b, s). t < s) items)
       = takeWhile (\<lambda>(b, s). t < s) (sort_key (\<lambda>(b, s). - s) items)"
proof -
  let ?k = "\<lambda>(b, s). - (s::real)"
  have q: "(\<lambda>(b::'b, s). t < s) = (\<lambda>x. ?k x < - t)" by (auto simp: fun_eq_iff)
  have "sort_key ?k (filter (\<lambda>x. ?k x < - t) items) = filter (\<lambda>x. ?k x < - t) (sort_key ?k items)"
    by (simp add: filter_sort)
  also have "\<dots> = takeWhile (\<lambda>x. ?k x < - t) (sort_key ?k items)"
    by (rule filter_sorted_takeWhile) simp
  finally show ?thesis unfolding q .
qed

lemma nth_zip_fst_map:
  assumes "length bs = length scs" and "set xs \<subseteq> {0..<length scs}"
  shows "map (\<lambda>i. bs ! i) xs = map fst (map (\<lambda>i. zip bs scs ! i) xs)"
proof -
  have "map (\<lambda>i. bs ! i) xs = map (\<lambda>i. fst (zip bs scs ! i)) xs"
    by (rule map_cong [OF refl]) (use assms in auto)
  then show ?thesis by (simp only: map_map comp_def)
qed

lemma nms_antitone:
  assumes l1: "length bs1 = length scs1" and l2: "length bs2 = length scs2"
    and f: "zip bs2 scs2 = filter (\<lambda>(b, s). t < s) (zip bs1 scs1)"
  shows "length (nms_loop bs2 thr cap (nms_order scs2) [])
       \<le> length (nms_loop bs1 thr cap (nms_order scs1) [])"
proof -
  define k where "k = (\<lambda>(b::vec4, s::real). - s)"
  define Q where "Q = (\<lambda>(b::vec4, s::real). t < s)"
  define i1 where "i1 = zip bs1 scs1"
  define i2 where "i2 = zip bs2 scs2"
  define o1 where "o1 = nms_order scs1"
  define o2 where "o2 = nms_order scs2"
  define n where "n = length (takeWhile Q (sort_key k i1))"
  have so1: "map (\<lambda>i. i1 ! i) o1 = sort_key k i1"
    unfolding i1_def o1_def k_def by (rule nms_order_items [OF l1])
  have so2: "map (\<lambda>i. i2 ! i) o2 = sort_key k i2"
    unfolding i2_def o2_def k_def by (rule nms_order_items [OF l2])
  have f': "i2 = filter Q i1" unfolding i1_def i2_def Q_def by (rule f)
  have "sort_key k i2 = takeWhile Q (sort_key k i1)"
    unfolding f' k_def Q_def by (rule sort_filter_prefix)
  also have "\<dots> = take n (sort_key k i1)" unfolding n_def by (rule takeWhile_eq_take)
  finally have s2: "map (\<lambda>i. i2 ! i) o2 = take n (map (\<lambda>i. i1 ! i) o1)"
    by (simp only: so1 so2)
  have sub1: "set (take n o1) \<subseteq> {0..<length scs1}"
    using set_take_subset [of n o1] set_nms_order [of scs1] by (simp add: o1_def)
  have sub2: "set o2 \<subseteq> {0..<length scs2}"
    using set_nms_order [of scs2] by (simp add: o2_def)
  have b1: "map (\<lambda>i. bs1 ! i) (take n o1) = map fst (map (\<lambda>i. i1 ! i) (take n o1))"
    unfolding i1_def by (rule nth_zip_fst_map [OF l1 sub1])
  have b2: "map (\<lambda>i. bs2 ! i) o2 = map fst (map (\<lambda>i. i2 ! i) o2)"
    unfolding i2_def by (rule nth_zip_fst_map [OF l2 sub2])
  have eq: "map (\<lambda>i. bs1 ! i) (take n o1) = map (\<lambda>i. bs2 ! i) o2"
    by (simp only: b1 b2 s2 take_map)
  have "map (\<lambda>i. bs1 ! i) (nms_loop bs1 thr cap (take n o1) [])
      = map (\<lambda>i. bs2 ! i) (nms_loop bs2 thr cap o2 [])"
    by (rule nms_loop_sim [OF eq]) simp
  then have "length (map (\<lambda>i. bs1 ! i) (nms_loop bs1 thr cap (take n o1) []))
      = length (map (\<lambda>i. bs2 ! i) (nms_loop bs2 thr cap o2 []))" by (rule arg_cong)
  then have len: "length (nms_loop bs2 thr cap o2 []) = length (nms_loop bs1 thr cap (take n o1) [])"
    by (simp only: length_map)
  have "nms_loop bs1 thr cap o1 [] = nms_loop bs1 thr cap (take n o1 @ drop n o1) []"
    by (simp only: append_take_drop_id)
  also have "\<dots> = nms_loop bs1 thr cap (drop n o1) (nms_loop bs1 thr cap (take n o1) [])"
    by (rule nms_loop_append)
  finally have "length (nms_loop bs1 thr cap (take n o1) []) \<le> length (nms_loop bs1 thr cap o1 [])"
    using nms_loop_length [of "nms_loop bs1 thr cap (take n o1) []" bs1 thr cap "drop n o1"]
    by simp
  with len show ?thesis unfolding o1_def o2_def by simp
qed

text \<open>The candidates, and \<open>boxclass_predictions\<close> in terms of them on inputs of matching
  shapes.\<close>

lemma length_class_major: "length (class_major C t) = C - 1"
  by (simp add: class_major_def)

lemma class_major_nth:
  "c < C - 1 \<Longrightarrow> class_major C t ! c = map (\<lambda>r. r ! (c + 1)) (rows t)"
  by (simp add: class_major_def)

lemma class_major_nth_nth:
  "c < C - 1 \<Longrightarrow> i < length (rows t) \<Longrightarrow> class_major C t ! c ! i = rows t ! i ! (c + 1)"
  by (simp add: class_major_nth)

lemma set_filtered_ids_of:
  "set (filtered_ids_of thr sc n) = {(c, i). c < length sc \<and> i < n \<and> thr < sc ! c ! i}"
  by (auto simp: filtered_ids_of_def)

lemma distinct_filtered_ids_of: "distinct (filtered_ids_of thr sc n)"
  by (simp add: filtered_ids_of_def distinct_product)

lemma set_candidates:
  "set (candidates cfg scores) =
     {(c, i). c < NUM_CLASS cfg - 1 \<and> i < length (rows scores)
        \<and> RESULT_SCORE_THRESH cfg < rows scores ! i ! (c + 1)}"
  by (auto simp: candidates_def set_filtered_ids_of length_class_major class_major_nth_nth)

lemma distinct_candidates: "distinct (candidates cfg scores)"
  by (simp add: candidates_def distinct_filtered_ids_of)

lemma gather_nd_Inr:
  "\<forall>(r, c) \<in> set idx. r < length ps \<and> c < length (ps ! r) \<Longrightarrow>
   gather_nd ps idx = Inr (map (\<lambda>(r, c). ps ! r ! c) idx)"
  by (simp add: gather_nd_def list_all_iff)

lemma gather_nd_class_major:
  assumes "length (rows t) = length (rows scores)"
  shows "gather_nd (class_major (NUM_CLASS cfg) t) (candidates cfg scores)
       = Inr (map (\<lambda>(c, i). class_major (NUM_CLASS cfg) t ! c ! i) (candidates cfg scores))"
  by (rule gather_nd_Inr) (use assms in \<open>auto simp: set_candidates length_class_major class_major_nth\<close>)

lemma max_coord_None:
  assumes "max_coord_of cfg boxes = None" and "length (rows boxes) = length (rows scores)"
  shows "candidates cfg scores = []"
proof (rule ccontr)
  assume "candidates cfg scores \<noteq> []"
  then obtain c i where ci: "(c, i) \<in> set (candidates cfg scores)"
    by (cases "candidates cfg scores") auto
  then have c: "c < NUM_CLASS cfg - 1" and i: "i < length (rows boxes)"
    using assms(2) by (auto simp: set_candidates)
  let ?b = "class_major (NUM_CLASS cfg) boxes ! c ! i"
  from c i have "?b \<in> set (class_major (NUM_CLASS cfg) boxes ! c)"
    by (simp add: class_major_nth)
  moreover from c have "class_major (NUM_CLASS cfg) boxes ! c \<in> set (class_major (NUM_CLASS cfg) boxes)"
    by (simp add: length_class_major)
  ultimately have "?b \<in> set (concat (class_major (NUM_CLASS cfg) boxes))" by auto
  moreover obtain x y z w where "?b = (x, y, z, w)" by (cases ?b) auto
  ultimately have "x \<in> set (concat (map list_of_quad (concat (class_major (NUM_CLASS cfg) boxes))))"
    by force
  with assms(1) show False by (auto simp: max_coord_of_def reduce_max_def split: if_splits)
qed

lemma length_nms_boxes:
  assumes "length (rows boxes) = length (rows scores)"
  shows "length (nms_boxes cfg boxes scores) = length (candidates cfg scores)"
proof (cases "max_coord_of cfg boxes")
  case None
  with max_coord_None [OF None assms] show ?thesis
    by (simp add: nms_boxes_def offset_boxes_def)
next
  case (Some m)
  then show ?thesis by (simp add: nms_boxes_def offset_boxes_def Let_def)
qed

lemma length_nms_scores: "length (nms_scores cfg scores) = length (candidates cfg scores)"
  by (simp add: nms_scores_def)

lemma set_selection_of:
  "set (selection_of cfg boxes scores) \<subseteq> {0..<length (candidates cfg scores)}"
  using nms_loop_subset [of "nms_boxes cfg boxes scores" "FRCNN_NMS_THRESH cfg" "RESULTS_PER_IM cfg"
      "nms_order (nms_scores cfg scores)" "[]"]
  by (simp add: selection_of_def set_nms_order length_nms_scores)

lemma boxclass_predictions_eq:
  assumes ok: "predictions_inputs_ok cfg boxes scores"
  shows "boxclass_predictions cfg boxes scores =
     Inr (map (\<lambda>k. case candidates cfg scores ! k of (c, i) \<Rightarrow> rows boxes ! i ! (c + 1))
            (selection_of cfg boxes scores),
          map (\<lambda>k. case candidates cfg scores ! k of (c, i) \<Rightarrow> rows scores ! i ! (c + 1))
            (selection_of cfg boxes scores),
          map (\<lambda>k. fst (candidates cfg scores ! k) + 1) (selection_of cfg boxes scores),
          map (\<lambda>k. snd (candidates cfg scores ! k)) (selection_of cfg boxes scores))"
proof -
  let ?cs = "candidates cfg scores"
  let ?sel = "selection_of cfg boxes scores"
  let ?fb = "map (\<lambda>(c, i). class_major (NUM_CLASS cfg) boxes ! c ! i) ?cs"
  let ?fs = "map (\<lambda>(c, i). class_major (NUM_CLASS cfg) scores ! c ! i) ?cs"
  from ok have len: "length (rows boxes) = length (rows scores)"
    and sh: "shape1 boxes = NUM_CLASS cfg" "shape1 scores = NUM_CLASS cfg"
    and thr: "0 \<le> FRCNN_NMS_THRESH cfg" "FRCNN_NMS_THRESH cfg \<le> 1"
    by (simp_all add: predictions_inputs_ok_def)
  have g1: "gather_nd (class_major (NUM_CLASS cfg) boxes) ?cs = Inr ?fb"
    by (rule gather_nd_class_major [OF len])
  have g2: "gather_nd (class_major (NUM_CLASS cfg) scores) ?cs = Inr ?fs"
    by (rule gather_nd_class_major [OF refl])
  have nms: "non_max_suppression (nms_boxes cfg boxes scores) ?fs (RESULTS_PER_IM cfg)
      (FRCNN_NMS_THRESH cfg) = Inr ?sel"
    using thr length_nms_boxes [OF len, of cfg]
    by (simp add: non_max_suppression_def selection_of_def nms_scores_def)
  have inb: "\<forall>k \<in> set ?sel. k < length ?cs" using set_selection_of [of cfg boxes scores] by auto
  have ga: "\<And>xs. length xs = length ?cs \<Longrightarrow> gather xs ?sel = Inr (map (\<lambda>k. xs ! k) ?sel)"
    using inb by (simp add: gather_def list_all_iff)
  have e1: "map (\<lambda>k. ?fb ! k) ?sel
      = map (\<lambda>k. case ?cs ! k of (c, i) \<Rightarrow> rows boxes ! i ! (c + 1)) ?sel"
  proof (rule map_cong [OF refl])
    fix k assume "k \<in> set ?sel"
    with inb have k: "k < length ?cs" by simp
    obtain c i where ci: "?cs ! k = (c, i)" by (cases "?cs ! k") auto
    with k have "(c, i) \<in> set ?cs" by (metis nth_mem)
    then have "c < NUM_CLASS cfg - 1" "i < length (rows boxes)"
      using len by (auto simp: set_candidates)
    then show "?fb ! k = (case ?cs ! k of (c, i) \<Rightarrow> rows boxes ! i ! (c + 1))"
      using k ci by (simp add: class_major_nth_nth)
  qed
  have e2: "map (\<lambda>k. ?fs ! k) ?sel
      = map (\<lambda>k. case ?cs ! k of (c, i) \<Rightarrow> rows scores ! i ! (c + 1)) ?sel"
  proof (rule map_cong [OF refl])
    fix k assume "k \<in> set ?sel"
    with inb have k: "k < length ?cs" by simp
    obtain c i where ci: "?cs ! k = (c, i)" by (cases "?cs ! k") auto
    with k have "(c, i) \<in> set ?cs" by (metis nth_mem)
    then have "c < NUM_CLASS cfg - 1" "i < length (rows scores)"
      by (auto simp: set_candidates)
    then show "?fs ! k = (case ?cs ! k of (c, i) \<Rightarrow> rows scores ! i ! (c + 1))"
      using k ci by (simp add: class_major_nth_nth)
  qed
  have e3: "map (\<lambda>k. map fst ?cs ! k) ?sel = map (\<lambda>k. fst (?cs ! k)) ?sel"
    by (rule map_cong [OF refl]) (use inb in simp)
  have nb: "offset_boxes (reduce_max (concat (map list_of_quad (concat (class_major (NUM_CLASS cfg) boxes)))))
      ?cs ?fb = nms_boxes cfg boxes scores"
    by (simp add: nms_boxes_def max_coord_of_def)
  show ?thesis
    unfolding boxclass_predictions_def Let_def candidates_def [symmetric]
    by (simp add: sh g1 g2 nb nms ga e1 e2 e3 comp_def)
qed

lemma nms_boxes_Some:
  assumes "max_coord_of cfg boxes = Some m"
  shows "nms_boxes cfg boxes scores
       = map (\<lambda>(c, i). add_offset (class_major (NUM_CLASS cfg) boxes ! c ! i) (real c * (m + 1)))
           (candidates cfg scores)"
proof -
  have "\<And>g. map2 add_offset (map g ids) (map (\<lambda>c. real c * (m + 1)) (map fst ids))
      = map (\<lambda>(c, i). add_offset (g (c, i)) (real c * (m + 1))) ids" for ids :: "(nat \<times> nat) list"
    by (induction ids) auto
  from this [of "\<lambda>(c, i). class_major (NUM_CLASS cfg) boxes ! c ! i" "candidates cfg scores"]
  show ?thesis using assms by (simp add: nms_boxes_def offset_boxes_def Let_def)
qed

lemma candidates_raise:
  assumes "RESULT_SCORE_THRESH cfg \<le> t2"
  shows "candidates (cfg\<lparr>RESULT_SCORE_THRESH := t2\<rparr>) scores
       = filter (\<lambda>(c, i). t2 < class_major (NUM_CLASS cfg) scores ! c ! i) (candidates cfg scores)"
proof -
  have "\<And>x. (case x of (c, i) \<Rightarrow> t2 < class_major (NUM_CLASS cfg) scores ! c ! i)
      \<Longrightarrow> (case x of (c, i) \<Rightarrow> RESULT_SCORE_THRESH cfg < class_major (NUM_CLASS cfg) scores ! c ! i)"
    using assms by auto
  then show ?thesis
    unfolding candidates_def filtered_ids_of_def
    by (auto simp: filter_filter intro!: filter_cong)
qed

lemma nms_items_raise:
  assumes t: "RESULT_SCORE_THRESH cfg \<le> t2" and len: "length (rows boxes) = length (rows scores)"
  shows "zip (nms_boxes (cfg\<lparr>RESULT_SCORE_THRESH := t2\<rparr>) boxes scores)
             (nms_scores (cfg\<lparr>RESULT_SCORE_THRESH := t2\<rparr>) scores)
       = filter (\<lambda>(b, s). t2 < s) (zip (nms_boxes cfg boxes scores) (nms_scores cfg scores))"
proof (cases "max_coord_of cfg boxes")
  case None
  then have n2: "max_coord_of (cfg\<lparr>RESULT_SCORE_THRESH := t2\<rparr>) boxes = None"
    by (simp add: max_coord_of_def)
  from max_coord_None [OF None len] max_coord_None [OF n2 len]
  show ?thesis by (simp add: nms_scores_def)
next
  case (Some m)
  then have s2: "max_coord_of (cfg\<lparr>RESULT_SCORE_THRESH := t2\<rparr>) boxes = Some m"
    by (simp add: max_coord_of_def)
  have z: "\<And>f g xs. zip (map f xs) (map g xs) = map (\<lambda>x. (f x, g x)) xs"
    by (simp add: zip_map_map zip_same_conv_map)
  show ?thesis
    unfolding nms_boxes_Some [OF Some] nms_boxes_Some [OF s2] nms_scores_def candidates_raise [OF t] z
    by (simp add: filter_map comp_def case_prod_unfold)
qed

lemma selection_antitone:
  assumes t: "RESULT_SCORE_THRESH cfg \<le> t2" and len: "length (rows boxes) = length (rows scores)"
  shows "length (selection_of (cfg\<lparr>RESULT_SCORE_THRESH := t2\<rparr>) boxes scores)
       \<le> length (selection_of cfg boxes scores)"
proof -
  have "length (nms_loop (nms_boxes (cfg\<lparr>RESULT_SCORE_THRESH := t2\<rparr>) boxes scores)
          (FRCNN_NMS_THRESH cfg) (RESULTS_PER_IM cfg)
          (nms_order (nms_scores (cfg\<lparr>RESULT_SCORE_THRESH := t2\<rparr>) scores)) [])
      \<le> length (nms_loop (nms_boxes cfg boxes scores) (FRCNN_NMS_THRESH cfg) (RESULTS_PER_IM cfg)
          (nms_order (nms_scores cfg scores)) [])"
    by (rule nms_antitone [OF _ _ nms_items_raise [OF t len]])
       (simp_all add: length_nms_boxes [OF len] length_nms_scores)
  then show ?thesis by (simp add: selection_of_def)
qed

text \<open>
  Claim C7. For fixed boxes, scores, suppression threshold and cap, raising the score
  threshold never increases the number of detections: on inputs of matching shapes both
  calls return, and the four output lists under the higher threshold are not longer than
  those under the lower one.
\<close>

theorem detections_antitone_in_score_threshold:
  assumes ok: "predictions_inputs_ok cfg boxes scores" and t: "RESULT_SCORE_THRESH cfg \<le> t2"
  shows "\<exists>b1 s1 l1 i1 b2 s2 l2 i2.
       boxclass_predictions cfg boxes scores = Inr (b1, s1, l1, i1)
     \<and> boxclass_predictions (cfg\<lparr>RESULT_SCORE_THRESH := t2\<rparr>) boxes scores = Inr (b2, s2, l2, i2)
     \<and> length b1 = length s1 \<and> length l1 = length s1 \<and> length i1 = length s1
     \<and> length b2 = length s2 \<and> length l2 = length s2 \<and> length i2 = length s2
     \<and> length s2 \<le> length s1"
proof -
  from ok have len: "length (rows boxes) = length (rows scores)"
    by (simp add: predictions_inputs_ok_def)
  from ok have ok2: "predictions_inputs_ok (cfg\<lparr>RESULT_SCORE_THRESH := t2\<rparr>) boxes scores"
    by (simp add: predictions_inputs_ok_def)
  show ?thesis
    unfolding boxclass_predictions_eq [OF ok] boxclass_predictions_eq [OF ok2]
    using selection_antitone [OF t len] by simp
qed

lemma candidates_nth:
  assumes "j < length (candidates cfg scores)"
  obtains c i where "candidates cfg scores ! j = (c, i)" "c < NUM_CLASS cfg - 1"
    "i < length (rows scores)" "RESULT_SCORE_THRESH cfg < rows scores ! i ! (c + 1)"
proof -
  obtain c i where ci: "candidates cfg scores ! j = (c, i)" by (cases "candidates cfg scores ! j") auto
  with assms have "(c, i) \<in> set (candidates cfg scores)" by (metis nth_mem)
  then have "c < NUM_CLASS cfg - 1" "i < length (rows scores)"
    "RESULT_SCORE_THRESH cfg < rows scores ! i ! (c + 1)"
    by (auto simp: set_candidates)
  with ci that show thesis by blast
qed

text \<open>
  Claim C5. After the background column 0 is dropped, the candidates handed to the
  suppression are exactly the (class, proposal) pairs whose score is strictly above the
  score threshold, and every returned detection is one of them: its score exceeds the
  threshold, its label is a class from 1 on, and its score and box are those of its
  proposal row and label in the inputs.
\<close>

theorem detections_above_score_threshold:
  assumes ok: "predictions_inputs_ok cfg boxes scores"
  shows "\<exists>fb fs fl ids.
       boxclass_predictions cfg boxes scores = Inr (fb, fs, fl, ids)
     \<and> length fb = length fs \<and> length fl = length fs \<and> length ids = length fs
     \<and> (\<forall>k < length fs.
           RESULT_SCORE_THRESH cfg < fs ! k
         \<and> 1 \<le> fl ! k \<and> fl ! k < NUM_CLASS cfg \<and> ids ! k < length (rows scores)
         \<and> fs ! k = rows scores ! (ids ! k) ! (fl ! k)
         \<and> fb ! k = rows boxes ! (ids ! k) ! (fl ! k))
     \<and> (\<forall>c i. (c, i) \<in> set (candidates cfg scores)
           \<longleftrightarrow> c < NUM_CLASS cfg - 1 \<and> i < length (rows scores)
               \<and> RESULT_SCORE_THRESH cfg < rows scores ! i ! (c + 1))
     \<and> length (nms_boxes cfg boxes scores) = length (candidates cfg scores)
     \<and> length (nms_scores cfg scores) = length (candidates cfg scores)
     \<and> (\<forall>s \<in> set (nms_scores cfg scores). RESULT_SCORE_THRESH cfg < s)"
proof -
  let ?cs = "candidates cfg scores"
  let ?sel = "selection_of cfg boxes scores"
  from ok have len: "length (rows boxes) = length (rows scores)"
    by (simp add: predictions_inputs_ok_def)
  have per: "RESULT_SCORE_THRESH cfg
           < rows scores ! snd (?cs ! (?sel ! k)) ! (fst (?cs ! (?sel ! k)) + 1)
         \<and> fst (?cs ! (?sel ! k)) + 1 < NUM_CLASS cfg
         \<and> snd (?cs ! (?sel ! k)) < length (rows scores)"
    if "k < length ?sel" for k
  proof -
    from that set_selection_of [of cfg boxes scores] have "?sel ! k < length ?cs"
      using nth_mem by fastforce
    then show ?thesis by (rule candidates_nth) auto
  qed
  have sc: "\<forall>s \<in> set (nms_scores cfg scores). RESULT_SCORE_THRESH cfg < s"
    by (auto simp: nms_scores_def set_candidates length_class_major class_major_nth_nth)
  show ?thesis
    unfolding boxclass_predictions_eq [OF ok]
    using per sc length_nms_boxes [OF len, of cfg] length_nms_scores [of cfg scores]
    by (simp add: set_candidates case_prod_unfold)
qed

text \<open>
  Claim C8. When every score outside the background column is at or below the score
  threshold there is no candidate, the suppression accepts the empty candidate list, and
  \<open>boxclass_predictions\<close> returns empty boxes, scores, labels and proposal indices
  without an error.
\<close>

theorem no_candidate_no_detection:
  assumes ok: "predictions_inputs_ok cfg boxes scores"
    and low: "\<forall>i < length (rows scores). \<forall>c. 1 \<le> c \<and> c < NUM_CLASS cfg
                \<longrightarrow> rows scores ! i ! c \<le> RESULT_SCORE_THRESH cfg"
  shows "boxclass_predictions cfg boxes scores = Inr ([], [], [], [])
     \<and> candidates cfg scores = []
     \<and> nms_boxes cfg boxes scores = [] \<and> nms_scores cfg scores = []
     \<and> non_max_suppression [] [] (RESULTS_PER_IM cfg) (FRCNN_NMS_THRESH cfg) = Inr []"
proof -
  from ok have len: "length (rows boxes) = length (rows scores)"
    and thr: "0 \<le> FRCNN_NMS_THRESH cfg" "FRCNN_NMS_THRESH cfg \<le> 1"
    by (simp_all add: predictions_inputs_ok_def)
  have "rows scores ! i ! (c + 1) \<le> RESULT_SCORE_THRESH cfg"
    if "c < NUM_CLASS cfg - 1" "i < length (rows scores)" for c i
    using low that by (simp add: less_diff_conv)
  then have "\<not> (c < NUM_CLASS cfg - 1 \<and> i < length (rows scores)
        \<and> RESULT_SCORE_THRESH cfg < rows scores ! i ! (c + 1))" for c i
    by (meson not_less)
  then have "set (candidates cfg scores) = {}"
    unfolding set_candidates by blast
  then have cs: "candidates cfg scores = []" by simp
  then have sc: "nms_scores cfg scores = []" by (simp add: nms_scores_def)
  from cs length_nms_boxes [OF len, of cfg] have bx: "nms_boxes cfg boxes scores = []" by simp
  have sel: "selection_of cfg boxes scores = []"
    by (simp add: selection_of_def sc nms_order_def)
  have nms: "non_max_suppression [] [] (RESULTS_PER_IM cfg) (FRCNN_NMS_THRESH cfg) = Inr []"
    using thr by (simp add: non_max_suppression_def nms_order_def)
  show ?thesis
    unfolding boxclass_predictions_eq [OF ok] by (simp add: sel cs sc bx nms)
qed



























subsection \<open>boxclass_predictions on the example batches\<close>

lemma example_ok: "predictions_inputs_ok example_cfg example_boxes example_scores"
  by (simp add: predictions_inputs_ok_def example_cfg_def example_boxes_def example_scores_def
      wf_tensor_def)

lemma example_predictions:
  "boxclass_predictions example_cfg example_boxes example_scores
   = Inr ([(20, 20, 30, 30), (0, 0, 10, 10), (0, 0, 10, 10)], [19 / 20, 9 / 10, 3 / 5],
          [2, 1, 2], [1, 0, 0])"
  by code_simp

lemma example_predictions_raised:
  "boxclass_predictions (example_cfg\<lparr>RESULT_SCORE_THRESH := 7 / 10\<rparr>) example_boxes example_scores
   = Inr ([(20, 20, 30, 30), (0, 0, 10, 10)], [19 / 20, 9 / 10], [2, 1], [1, 0])"
  by code_simp


theorem detections_above_score_threshold_witness:
  "predictions_inputs_ok example_cfg example_boxes example_scores
   \<and> boxclass_predictions example_cfg example_boxes example_scores
     = Inr ([(20, 20, 30, 30), (0, 0, 10, 10), (0, 0, 10, 10)], [19 / 20, 9 / 10, 3 / 5],
            [2, 1, 2], [1, 0, 0])
   \<and> list_all (\<lambda>s. RESULT_SCORE_THRESH example_cfg < s) [19 / 20, 9 / 10, 3 / 5]
   \<and> list_all (\<lambda>s. RESULT_SCORE_THRESH example_cfg < s) (nms_scores example_cfg example_scores)"
  using detections_above_score_threshold [OF example_ok] example_ok
  by (auto simp: example_predictions list_all_iff less_Suc_eq numeral_3_eq_3 all_conj_distrib)

theorem detections_antitone_in_score_threshold_witness:
  "predictions_inputs_ok example_cfg example_boxes example_scores
   \<and> RESULT_SCORE_THRESH example_cfg \<le> 7 / 10
   \<and> (\<exists>b1 s1 l1 i1 b2 s2 l2 i2.
       boxclass_predictions example_cfg example_boxes example_scores = Inr (b1, s1, l1, i1)
     \<and> boxclass_predictions (example_cfg\<lparr>RESULT_SCORE_THRESH := 7 / 10\<rparr>) example_boxes example_scores
         = Inr (b2, s2, l2, i2)
     \<and> length s1 = 3 \<and> length s2 = 2 \<and> length s2 \<le> length s1)"
proof -
  have t: "RESULT_SCORE_THRESH example_cfg \<le> 7 / 10" by (simp add: example_cfg_def)
  from detections_antitone_in_score_threshold [OF example_ok t] example_ok t
  show ?thesis by (auto simp: example_predictions example_predictions_raised)
qed

theorem no_candidate_no_detection_witness:
  "predictions_inputs_ok (example_cfg\<lparr>RESULT_SCORE_THRESH := 1\<rparr>) example_boxes example_scores
   \<and> list_all (\<lambda>r. list_all (\<lambda>s. s \<le> RESULT_SCORE_THRESH (example_cfg\<lparr>RESULT_SCORE_THRESH := 1\<rparr>)) (tl r))
        (rows example_scores)
   \<and> boxclass_predictions (example_cfg\<lparr>RESULT_SCORE_THRESH := 1\<rparr>) example_boxes example_scores
     = Inr ([], [], [], [])"
proof -
  have ok: "predictions_inputs_ok (example_cfg\<lparr>RESULT_SCORE_THRESH := 1\<rparr>) example_boxes example_scores"
    using example_ok by (simp add: predictions_inputs_ok_def)
  have low: "\<forall>i < length (rows example_scores). \<forall>c. 1 \<le> c \<and> c < NUM_CLASS (example_cfg\<lparr>RESULT_SCORE_THRESH := 1\<rparr>)
         \<longrightarrow> rows example_scores ! i ! c \<le> RESULT_SCORE_THRESH (example_cfg\<lparr>RESULT_SCORE_THRESH := 1\<rparr>)"
    by (auto simp: example_scores_def example_cfg_def less_Suc_eq numeral_3_eq_3 numeral_2_eq_2)
  have low': "list_all (\<lambda>r. list_all (\<lambda>s. s \<le> RESULT_SCORE_THRESH (example_cfg\<lparr>RESULT_SCORE_THRESH := 1\<rparr>)) (tl r))
        (rows example_scores)"
    by (simp add: example_scores_def example_cfg_def)
  from no_candidate_no_detection [OF ok low] ok low' show ?thesis by blast
qed



subsection \<open>BoxClassHead.losses\<close>

text \<open>Gathering at the positions that \<open>tf.where\<close> returns is filtering; the loop body and
  the loop on inputs of matching shapes.\<close>

lemma length_filter_upt_nth:
  "length (filter (\<lambda>j. P (xs ! j)) [0..<length xs]) = length (filter P xs)"
  using arg_cong [OF nth_filter_upt [of xs P], of length] by simp

lemma gather_filter_zip:
  assumes "length xs = length ys"
  shows "map (\<lambda>j. ys ! j) (filter (\<lambda>j. P (xs ! j)) [0..<length xs])
       = map snd (filter (\<lambda>(x, y). P x) (zip xs ys))"
proof -
  let ?zs = "zip xs ys"
  have len: "length ?zs = length xs" using assms by simp
  have f: "filter (\<lambda>j. (\<lambda>(x, y). P x) (?zs ! j)) [0..<length xs]
      = filter (\<lambda>j. P (xs ! j)) [0..<length xs]"
    by (rule filter_cong [OF refl]) (use assms in simp)
  have "map snd (filter (\<lambda>(x, y). P x) ?zs)
      = map snd (map (\<lambda>j. ?zs ! j) (filter (\<lambda>j. (\<lambda>(x, y). P x) (?zs ! j)) [0..<length ?zs]))"
    by (simp only: nth_filter_upt)
  also have "\<dots> = map (\<lambda>j. snd (?zs ! j)) (filter (\<lambda>j. P (xs ! j)) [0..<length xs])"
    by (simp only: len f map_map comp_def)
  also have "\<dots> = map (\<lambda>j. ys ! j) (filter (\<lambda>j. P (xs ! j)) [0..<length xs])"
    by (rule map_cong [OF refl]) (use assms in simp)
  finally show ?thesis by simp
qed

lemma gather_int_Inr:
  "list_all (\<lambda>j. 0 \<le> j \<and> j < int (length ps)) idx \<Longrightarrow>
   gather_int ps idx = Inr (map (\<lambda>j. ps ! nat j) idx)"
  by (auto simp: gather_int_def gather_def list_all_iff comp_def)

lemma tf_where_image:
  "tf_where (map (\<lambda>b. fst b = real i) bs) = filter (\<lambda>j. fst (bs ! j) = real i) [0..<length bs]"
  by (rule tf_where_map)

lemma resolve_image_ok:
  assumes ok: "resolver_inputs_ok h t B" and i: "i < B"
  shows "resolve_image enc h t i =
     Inr (map snd (filter (\<lambda>(b, l). fst b = real i) (zip (proposal_boxes h) (proposal_labels t))),
          map snd (filter (\<lambda>(b, l). fst b = real i) (zip (proposal_boxes h) (rows (label_logits h)))),
          map (\<lambda>v. mul4 v (bbox_regression_weights h))
            (map2 enc
               (map (\<lambda>g. take (prepadding_gt_counts h ! i) (gt_boxes t ! i) ! nat g)
                  (proposal_gt_id_for_each_fg t ! i))
               (map snd (filter (\<lambda>b. fst b = real i) (proposal_fg_boxes t)))),
          map (\<lambda>j. rows (box_logits h) ! nat j)
            (map snd (filter (\<lambda>(b, j). fst b = real i)
                       (zip (proposal_fg_boxes t) (proposal_fg_inds t)))))"
proof -
  let ?pb = "proposal_boxes h" and ?fb = "proposal_fg_boxes t"
  let ?ids = "proposal_gt_id_for_each_fg t ! i"
  let ?gt = "take (prepadding_gt_counts h ! i) (gt_boxes t ! i)"
  let ?bi = "filter (\<lambda>j. fst (?pb ! j) = real i) [0..<length ?pb]"
  let ?fi = "filter (\<lambda>j. fst (?fb ! j) = real i) [0..<length ?fb]"
  from ok i have b: "i < length (proposal_gt_id_for_each_fg t)" "i < length (gt_boxes t)"
    "i < length (prepadding_gt_counts h)"
    and ll: "length (proposal_labels t) = length ?pb" "length (rows (label_logits h)) = length ?pb"
    and fl: "length (proposal_fg_inds t) = length ?fb"
    and fr: "list_all (\<lambda>j. 0 \<le> j \<and> j < int (length (rows (box_logits h)))) (proposal_fg_inds t)"
    by (simp_all add: resolver_inputs_ok_def)
  from ok i have per: "list_all (\<lambda>g. 0 \<le> g \<and> g < int (min (prepadding_gt_counts h ! i) (length (gt_boxes t ! i)))) ?ids"
    and cnt: "length ?ids = length (filter (\<lambda>b. fst b = real i) ?fb)"
    by (simp_all add: resolver_inputs_ok_def list_all_iff)
  have s1: "py_index (proposal_gt_id_for_each_fg t) i = Inr ?ids" using b by (simp add: py_index_def)
  have s2: "tensor_index (gt_boxes t) i = Inr (gt_boxes t ! i)" using b by (simp add: tensor_index_def)
  have s3: "tensor_index (prepadding_gt_counts h) i = Inr (prepadding_gt_counts h ! i)"
    using b by (simp add: tensor_index_def)
  have s4: "gather_int ?gt ?ids = Inr (map (\<lambda>g. ?gt ! nat g) ?ids)"
    by (rule gather_int_Inr) (use per in \<open>simp add: min.commute\<close>)
  have s5: "gather ?fb ?fi = Inr (map (\<lambda>j. ?fb ! j) ?fi)"
    by (rule gather_Inr) simp
  have t5: "map (\<lambda>j. ?fb ! j) ?fi = filter (\<lambda>b. fst b = real i) ?fb"
    by (rule nth_filter_upt)
  have s6: "encode_bbox_target enc (map (\<lambda>g. ?gt ! nat g) ?ids) (map snd (filter (\<lambda>b. fst b = real i) ?fb))
      = Inr (map2 enc (map (\<lambda>g. ?gt ! nat g) ?ids) (map snd (filter (\<lambda>b. fst b = real i) ?fb)))"
    using cnt by (simp add: encode_bbox_target_def)
  have s7: "gather (proposal_labels t) ?bi = Inr (map (\<lambda>j. proposal_labels t ! j) ?bi)"
    by (rule gather_Inr) (simp add: ll)
  have t7: "map (\<lambda>j. proposal_labels t ! j) ?bi
      = map snd (filter (\<lambda>(b, l). fst b = real i) (zip ?pb (proposal_labels t)))"
    by (rule gather_filter_zip) (simp add: ll)
  have s8: "gather (rows (label_logits h)) ?bi = Inr (map (\<lambda>j. rows (label_logits h) ! j) ?bi)"
    by (rule gather_Inr) (simp add: ll)
  have t8: "map (\<lambda>j. rows (label_logits h) ! j) ?bi
      = map snd (filter (\<lambda>(b, l). fst b = real i) (zip ?pb (rows (label_logits h))))"
    by (rule gather_filter_zip) (simp add: ll)
  have s9: "gather (proposal_fg_inds t) ?fi = Inr (map (\<lambda>j. proposal_fg_inds t ! j) ?fi)"
    by (rule gather_Inr) (simp add: fl)
  have t9: "map (\<lambda>j. proposal_fg_inds t ! j) ?fi
      = map snd (filter (\<lambda>(b, j). fst b = real i) (zip ?fb (proposal_fg_inds t)))"
    by (rule gather_filter_zip) (simp add: fl)
  have s10: "gather_int (rows (box_logits h)) (map snd (filter (\<lambda>(b, j). fst b = real i) (zip ?fb (proposal_fg_inds t))))
      = Inr (map (\<lambda>j. rows (box_logits h) ! nat j)
              (map snd (filter (\<lambda>(b, j). fst b = real i) (zip ?fb (proposal_fg_inds t)))))"
  proof (rule gather_int_Inr)
    have "set (map snd (filter (\<lambda>(b, j). fst b = real i) (zip ?fb (proposal_fg_inds t))))
        \<subseteq> set (proposal_fg_inds t)"
      by (auto dest: set_zip_rightD)
    with fr show "list_all (\<lambda>j. 0 \<le> j \<and> j < int (length (rows (box_logits h))))
        (map snd (filter (\<lambda>(b, j). fst b = real i) (zip ?fb (proposal_fg_inds t))))"
      unfolding list_all_iff by blast
  qed
  show ?thesis
    unfolding resolve_image_def Let_def tf_where_image
    by (simp only: s1 s2 s3 s4 s5 t5 s6 s7 t7 s8 t8 s9 t9 s10 bind_e_Inr)
qed

lemma resolve_images_map:
  assumes "\<forall>i \<in> set js. resolve_image enc h t i = Inr (f i)"
  shows "resolve_images enc h t js = Inr (map f js)"
  using assms by (induction js) simp_all

lemma length_snd_filter_zip:
  assumes "length xs = length ys"
  shows "length (map snd (filter (\<lambda>(x, y). P x) (zip xs ys))) = length (filter P xs)"
  using arg_cong [OF gather_filter_zip [OF assms, of P], of length]
  by (simp add: length_filter_upt_nth)

lemma length_filter_disj:
  "\<forall>x \<in> set xs. \<not> (P x \<and> Q x) \<Longrightarrow>
   length (filter (\<lambda>x. P x \<or> Q x) xs) = length (filter P xs) + length (filter Q xs)"
  by (induction xs) auto

lemma count_in_batch:
  "sum_list (map (\<lambda>i. length (filter (\<lambda>b. fst b = real i) bs)) [0..<B])
   = length (filter (\<lambda>b. \<exists>i<B. fst b = real i) bs)"
proof (induction B)
  case 0
  show ?case by simp
next
  case (Suc B)
  have e: "(\<lambda>b. \<exists>i<Suc B. fst b = real i) = (\<lambda>b. (\<exists>i<B. fst b = real i) \<or> fst b = real B)"
    by (auto simp: less_Suc_eq fun_eq_iff)
  have d: "\<forall>b \<in> set bs. \<not> ((\<exists>i<B. fst b = real i) \<and> fst b = real B)" by auto
  show ?case
    unfolding e length_filter_disj [OF d] using Suc by simp
qed

lemma length_concat_images:
  assumes "length xs = length ys"
  shows "length (concat (map (\<lambda>i. map snd (filter (\<lambda>(b, l). fst b = real i) (zip xs ys))) [0..<B]))
       = length (filter (\<lambda>b. \<exists>i<B. fst b = real i) xs)"
proof -
  have "length (concat (map (\<lambda>i. map snd (filter (\<lambda>(b, l). fst b = real i) (zip xs ys))) [0..<B]))
      = sum_list (map (\<lambda>i. length (filter (\<lambda>b. fst b = real i) xs)) [0..<B])"
    unfolding length_concat map_map comp_def
    using length_snd_filter_zip [OF assms, of "\<lambda>x. fst x = real _"] by simp
  then show ?thesis by (simp only: count_in_batch)
qed

lemma resolve_batch_ok:
  assumes ok: "resolver_inputs_ok h t B"
  shows "resolve_batch enc h t B =
     Inr (concat (map (\<lambda>i. map snd (filter (\<lambda>(b, l). fst b = real i)
                                  (zip (proposal_boxes h) (proposal_labels t)))) [0..<B]),
          concat (map (\<lambda>i. map snd (filter (\<lambda>(b, l). fst b = real i)
                                  (zip (proposal_boxes h) (rows (label_logits h))))) [0..<B]),
          concat (map (\<lambda>i. map (\<lambda>v. mul4 v (bbox_regression_weights h))
            (map2 enc
               (map (\<lambda>g. take (prepadding_gt_counts h ! i) (gt_boxes t ! i) ! nat g)
                  (proposal_gt_id_for_each_fg t ! i))
               (map snd (filter (\<lambda>b. fst b = real i) (proposal_fg_boxes t))))) [0..<B]),
          concat (map (\<lambda>i. map (\<lambda>j. rows (box_logits h) ! nat j)
            (map snd (filter (\<lambda>(b, j). fst b = real i)
                       (zip (proposal_fg_boxes t) (proposal_fg_inds t))))) [0..<B]))"
proof -
  from ok have B: "0 < B" by (simp add: resolver_inputs_ok_def)
  then have ne: "[0..<B] \<noteq> []" by simp
  have "\<forall>i \<in> set [0..<B]. resolve_image enc h t i = Inr
     (map snd (filter (\<lambda>(b, l). fst b = real i) (zip (proposal_boxes h) (proposal_labels t))),
          map snd (filter (\<lambda>(b, l). fst b = real i) (zip (proposal_boxes h) (rows (label_logits h)))),
          map (\<lambda>v. mul4 v (bbox_regression_weights h))
            (map2 enc
               (map (\<lambda>g. take (prepadding_gt_counts h ! i) (gt_boxes t ! i) ! nat g)
                  (proposal_gt_id_for_each_fg t ! i))
               (map snd (filter (\<lambda>b. fst b = real i) (proposal_fg_boxes t)))),
          map (\<lambda>j. rows (box_logits h) ! nat j)
            (map snd (filter (\<lambda>(b, j). fst b = real i)
                       (zip (proposal_fg_boxes t) (proposal_fg_inds t)))))"
    using resolve_image_ok [OF ok] by simp
  from resolve_images_map [OF this] ne show ?thesis
    by (simp add: resolve_batch_def tf_concat_def comp_def)
qed

lemma length_concat_cong:
  "\<forall>x \<in> set xs. length (f x) = length (g x) \<Longrightarrow>
   length (concat (map f xs)) = length (concat (map g xs))"
  by (induction xs) simp_all

text \<open>
  Claim C2, as amended. An image index outside [0, batch_size) raises no error. On inputs
  of matching shapes the loop over the images returns; for each image it gathers the rows
  whose index equals the image, so that the concatenated labels, label logits, encoded
  targets and foreground logits hold exactly the rows of the proposals and of the
  foreground boxes whose image index is one of 0, ..., batch_size - 1, image by image, and
  every other row is left out. \<open>losses\<close> hands these to \<open>boxclass_losses\<close>.
\<close>

theorem stray_image_indices_are_dropped:
  assumes ok: "resolver_inputs_ok h t B"
  shows "\<exists>ls lgs es fs.
       resolve_batch enc h t B = Inr (ls, lgs, es, fs)
     \<and> ls = concat (map (\<lambda>i. map snd (filter (\<lambda>(b, l). fst b = real i)
                                  (zip (proposal_boxes h) (proposal_labels t)))) [0..<B])
     \<and> lgs = concat (map (\<lambda>i. map snd (filter (\<lambda>(b, l). fst b = real i)
                                  (zip (proposal_boxes h) (rows (label_logits h))))) [0..<B])
     \<and> fs = concat (map (\<lambda>i. map (\<lambda>j. rows (box_logits h) ! nat j)
            (map snd (filter (\<lambda>(b, j). fst b = real i)
                       (zip (proposal_fg_boxes t) (proposal_fg_inds t))))) [0..<B])
     \<and> length ls = length (filter (\<lambda>b. \<exists>i<B. fst b = real i) (proposal_boxes h))
     \<and> length lgs = length ls
     \<and> length fs = length (filter (\<lambda>b. \<exists>i<B. fst b = real i) (proposal_fg_boxes t))
     \<and> length es = length fs
     \<and> (training h = Some t \<longrightarrow>
          losses enc h B = boxclass_losses ls \<lparr>shape1 = shape1 (label_logits h), rows = lgs\<rparr> es
                             \<lparr>shape1 = shape1 (box_logits h), rows = fs\<rparr>)"
proof -
  let ?ls = "concat (map (\<lambda>i. map snd (filter (\<lambda>(b, l). fst b = real i)
                                  (zip (proposal_boxes h) (proposal_labels t)))) [0..<B])"
  let ?lgs = "concat (map (\<lambda>i. map snd (filter (\<lambda>(b, l). fst b = real i)
                                  (zip (proposal_boxes h) (rows (label_logits h))))) [0..<B])"
  let ?es = "concat (map (\<lambda>i. map (\<lambda>v. mul4 v (bbox_regression_weights h))
            (map2 enc
               (map (\<lambda>g. take (prepadding_gt_counts h ! i) (gt_boxes t ! i) ! nat g)
                  (proposal_gt_id_for_each_fg t ! i))
               (map snd (filter (\<lambda>b. fst b = real i) (proposal_fg_boxes t))))) [0..<B])"
  let ?fs = "concat (map (\<lambda>i. map (\<lambda>j. rows (box_logits h) ! nat j)
            (map snd (filter (\<lambda>(b, j). fst b = real i)
                       (zip (proposal_fg_boxes t) (proposal_fg_inds t))))) [0..<B])"
  from ok have ll: "length (proposal_boxes h) = length (proposal_labels t)"
      "length (proposal_boxes h) = length (rows (label_logits h))"
    and fl: "length (proposal_fg_boxes t) = length (proposal_fg_inds t)"
    by (simp_all add: resolver_inputs_ok_def)
  have r: "resolve_batch enc h t B = Inr (?ls, ?lgs, ?es, ?fs)" by (rule resolve_batch_ok [OF ok])
  have l1: "length ?ls = length (filter (\<lambda>b. \<exists>i<B. fst b = real i) (proposal_boxes h))"
    by (rule length_concat_images [OF ll(1)])
  have l2: "length ?lgs = length (filter (\<lambda>b. \<exists>i<B. fst b = real i) (proposal_boxes h))"
    by (rule length_concat_images [OF ll(2)])
  have "length ?fs = length (concat (map (\<lambda>i. map snd (filter (\<lambda>(b, j). fst b = real i)
                       (zip (proposal_fg_boxes t) (proposal_fg_inds t)))) [0..<B]))"
    by (rule length_concat_cong) simp
  then have l3: "length ?fs = length (filter (\<lambda>b. \<exists>i<B. fst b = real i) (proposal_fg_boxes t))"
    by (simp only: length_concat_images [OF fl])
  have l4: "length ?es = length ?fs"
  proof (rule length_concat_cong, rule ballI)
    fix i assume "i \<in> set [0..<B]"
    then have i: "i < B" by simp
    with ok have "length (proposal_gt_id_for_each_fg t ! i)
        = length (filter (\<lambda>b. fst b = real i) (proposal_fg_boxes t))"
      by (simp add: resolver_inputs_ok_def list_all_iff)
    then show "length (map (\<lambda>v. mul4 v (bbox_regression_weights h))
            (map2 enc
               (map (\<lambda>g. take (prepadding_gt_counts h ! i) (gt_boxes t ! i) ! nat g)
                  (proposal_gt_id_for_each_fg t ! i))
               (map snd (filter (\<lambda>b. fst b = real i) (proposal_fg_boxes t)))))
        = length (map (\<lambda>j. rows (box_logits h) ! nat j)
            (map snd (filter (\<lambda>(b, j). fst b = real i)
                       (zip (proposal_fg_boxes t) (proposal_fg_inds t)))))"
      using length_snd_filter_zip [OF fl, of "\<lambda>b. fst b = real i"] by simp
  qed
  have lo: "training h = Some t \<longrightarrow>
          losses enc h B = boxclass_losses ?ls \<lparr>shape1 = shape1 (label_logits h), rows = ?lgs\<rparr> ?es
                             \<lparr>shape1 = shape1 (box_logits h), rows = ?fs\<rparr>"
    by (simp add: losses_def r)
  have l2': "length ?lgs = length ?ls" by (simp only: l1 l2)
  show ?thesis
    apply (rule exI [of _ ?ls], rule exI [of _ ?lgs], rule exI [of _ ?es], rule exI [of _ ?fs])
    apply (intro conjI)
    by (rule r refl l1 l2' l3 l4 lo)+
qed

lemma stray_ok: "resolver_inputs_ok stray_head stray_info 1"
  by code_simp

lemma stray_resolve:
  "resolve_batch example_enc stray_head stray_info 1
   = Inr ([1], [[0, 0]], [(10, 10, 5, 5)], [[(0, 0, 0, 0), (1, 1, 1, 1)]])"
  by code_simp

text \<open>
  The claim C2 as it is stated fails: with a batch of one image and a second proposal
  tagged with the image index 7, the loop returns the rows of image 0 alone and
  \<open>losses\<close> returns a result.
\<close>

theorem stray_image_index_raises_nothing:
  "fst (proposal_boxes stray_head ! 1) = 7
   \<and> fst (proposal_fg_boxes stray_info ! 1) = 7
   \<and> length (proposal_boxes stray_head) = 2
   \<and> resolve_batch example_enc stray_head stray_info 1
     = Inr ([1], [[0, 0]], [(10, 10, 5, 5)], [[(0, 0, 0, 0), (1, 1, 1, 1)]])
   \<and> \<not> isl (losses example_enc stray_head 1)"
proof -
  have ok: "losses_inputs_ok [1] \<lparr>shape1 = 2, rows = [[0, 0]]\<rparr> [(10, 10, 5, 5)]
      \<lparr>shape1 = 2, rows = [[(0, 0, 0, 0), (1, 1, 1, 1)]]\<rparr>"
    by (simp add: losses_inputs_ok_def wf_tensor_def)
  from boxclass_losses_ok [OF ok] obtain r where
    "boxclass_losses [1] \<lparr>shape1 = 2, rows = [[0, 0]]\<rparr> [(10, 10, 5, 5)]
      \<lparr>shape1 = 2, rows = [[(0, 0, 0, 0), (1, 1, 1, 1)]]\<rparr> = Inr r" by blast
  moreover have "training stray_head = Some stray_info"
    "shape1 (label_logits stray_head) = 2" "shape1 (box_logits stray_head) = 2"
    by (simp_all add: stray_head_def)
  ultimately have "losses example_enc stray_head 1 = Inr r"
    by (simp add: losses_def stray_resolve del: One_nat_def)
  then have nl: "\<not> isl (losses example_enc stray_head 1)" by simp
  have a: "fst (proposal_boxes stray_head ! 1) = 7" by (simp add: stray_head_def)
  have b: "fst (proposal_fg_boxes stray_info ! 1) = 7" by (simp add: stray_info_def)
  have c: "length (proposal_boxes stray_head) = 2" by (simp add: stray_head_def)
  from a b c stray_resolve nl show ?thesis by (intro conjI)
qed

theorem stray_image_indices_are_dropped_witness:
  "resolver_inputs_ok stray_head stray_info 1
   \<and> (\<exists>ls lgs es fs.
        resolve_batch example_enc stray_head stray_info 1 = Inr (ls, lgs, es, fs)
      \<and> length ls = 1 \<and> length fs = 1 \<and> length es = 1)"
proof -
  from stray_image_indices_are_dropped [OF stray_ok, of example_enc] obtain ls lgs es fs where
    r: "resolve_batch example_enc stray_head stray_info 1 = Inr (ls, lgs, es, fs)"
    and l: "length es = length fs" by blast
  from r have "ls = [1]" "fs = [[(0, 0, 0, 0), (1, 1, 1, 1)]]" by (simp_all add: stray_resolve del: One_nat_def)
  with l have "length ls = 1 \<and> length fs = 1 \<and> length es = 1" by simp
  with r stray_ok show ?thesis by blast
qed

subsection \<open>BoxClassHead.decoded_output_boxes_batch\<close>

lemma decode_bbox_target_Inr:
  assumes "length ps = length as" and "\<forall>i < length ps. length (ps ! i) = length (as ! i)"
  shows "decode_bbox_target dec ps as = Inr (map2 (map2 dec) ps as)"
proof -
  have "map length ps = map length as"
    by (rule nth_equalityI) (use assms in simp_all)
  then show ?thesis by (simp add: decode_bbox_target_def)
qed

lemma div4_finite:
  "w0 \<noteq> 0 \<and> w1 \<noteq> 0 \<and> w2 \<noteq> 0 \<and> w3 \<noteq> 0 \<Longrightarrow>
   div4 (a, b, c, d) (w0, w1, w2, w3) = (Finite (a / w0), Finite (b / w1), Finite (c / w2), Finite (d / w3))"
  by (simp add: tf_div_def)

text \<open>
  Claim C9, as amended. \<open>decoded_output_boxes_batch\<close> divides the regression logits
  elementwise by the regression weights (a real quotient for a weight other than 0),
  repeats each proposal box, its image index stripped, over \<open>cfg.DATA.NUM_CLASS\<close> class
  slots as the decode anchor and, when the logits have that number of class slots, returns
  the decoded boxes of shape N x NUM_CLASS x 4, each decoded from the quotient and the
  proposal's box, together with the image indices.
\<close>

theorem decoded_output_boxes_batch_per_class:
  assumes wf: "wf_tensor (box_logits h)"
    and k: "shape1 (box_logits h) = NUM_CLASS cfg"
    and n: "length (rows (box_logits h)) = length (proposal_boxes h)"
  shows "\<exists>decoded.
       decoded_output_boxes_batch dec cfg h = Inr (decoded, map fst (proposal_boxes h))
     \<and> length decoded = length (proposal_boxes h)
     \<and> (\<forall>i < length (proposal_boxes h).
           length (decoded ! i) = NUM_CLASS cfg
         \<and> decode_anchors cfg (map snd (proposal_boxes h)) ! i
             = replicate (NUM_CLASS cfg) (snd (proposal_boxes h ! i))
         \<and> (\<forall>c < NUM_CLASS cfg.
               decoded ! i ! c
               = dec (div4 (rows (box_logits h) ! i ! c) (bbox_regression_weights h))
                     (snd (proposal_boxes h ! i))))
     \<and> (\<forall>a b c d w0 w1 w2 w3. w0 \<noteq> 0 \<and> w1 \<noteq> 0 \<and> w2 \<noteq> 0 \<and> w3 \<noteq> 0
           \<longrightarrow> div4 (a, b, c, d) (w0, w1, w2, w3)
               = (Finite (a / w0), Finite (b / w1), Finite (c / w2), Finite (d / w3)))"
proof -
  let ?L = "map (map (\<lambda>v. div4 v (bbox_regression_weights h))) (rows (box_logits h))"
  let ?A = "decode_anchors cfg (map snd (proposal_boxes h))"
  let ?D = "map2 (map2 dec) ?L ?A"
  have rl: "length (rows (box_logits h) ! i) = NUM_CLASS cfg" if "i < length (proposal_boxes h)" for i
    using wf k n that by (simp add: wf_tensor_def list_all_length)
  have lenL: "length ?L = length ?A" using n by (simp add: decode_anchors_def)
  have rows: "\<forall>i < length ?L. length (?L ! i) = length (?A ! i)"
    using n rl by (simp add: decode_anchors_def)
  have r: "decoded_output_boxes_batch dec cfg h = Inr (?D, map fst (proposal_boxes h))"
    by (simp add: decoded_output_boxes_batch_def Let_def decode_bbox_target_Inr [OF lenL rows])
  have lenD: "length ?D = length (proposal_boxes h)" using n by (simp add: decode_anchors_def)
  have per: "length (?D ! i) = NUM_CLASS cfg
         \<and> ?A ! i = replicate (NUM_CLASS cfg) (snd (proposal_boxes h ! i))
         \<and> (\<forall>c < NUM_CLASS cfg.
               ?D ! i ! c = dec (div4 (rows (box_logits h) ! i ! c) (bbox_regression_weights h))
                     (snd (proposal_boxes h ! i)))"
    if i: "i < length (proposal_boxes h)" for i
    using i n rl [OF i] by (simp add: decode_anchors_def)
  show ?thesis
    apply (rule exI [of _ ?D])
    apply (intro conjI allI impI)
    using r lenD per div4_finite by blast+
qed

text \<open>
  The claim C9 as it is stated fails for a class-agnostic head: with K = 1 class slot and
  NUM_CLASS = 3 the anchors have three slots per proposal, and the decoding of two
  proposals is rejected for the mismatch of the shapes.
\<close>

theorem agnostic_head_anchors_have_num_class_slots:
  "shape1 (box_logits agnostic_head) = 1
   \<and> wf_tensor (box_logits agnostic_head)
   \<and> length (rows (box_logits agnostic_head)) = length (proposal_boxes agnostic_head)
   \<and> NUM_CLASS example_cfg = 3
   \<and> decode_anchors example_cfg (map snd (proposal_boxes agnostic_head))
     = [[(0, 0, 4, 4), (0, 0, 4, 4), (0, 0, 4, 4)], [(1, 1, 5, 5), (1, 1, 5, 5), (1, 1, 5, 5)]]
   \<and> decoded_output_boxes_batch Pair example_cfg agnostic_head = Inl InvalidArgument"
proof -
  have a: "decode_anchors example_cfg (map snd (proposal_boxes agnostic_head))
     = [[(0, 0, 4, 4), (0, 0, 4, 4), (0, 0, 4, 4)], [(1, 1, 5, 5), (1, 1, 5, 5), (1, 1, 5, 5)]]"
    by code_simp
  have b: "decoded_output_boxes_batch Pair example_cfg agnostic_head = Inl InvalidArgument"
    by code_simp
  have c: "shape1 (box_logits agnostic_head) = 1" "wf_tensor (box_logits agnostic_head)"
    "length (rows (box_logits agnostic_head)) = length (proposal_boxes agnostic_head)"
    by (simp_all add: agnostic_head_def wf_tensor_def)
  have d: "NUM_CLASS example_cfg = 3" by (simp add: example_cfg_def)
  from a b c d show ?thesis by (intro conjI)
qed

theorem decoded_output_boxes_batch_per_class_witness:
  "wf_tensor (box_logits per_class_head)
   \<and> shape1 (box_logits per_class_head) = NUM_CLASS example_cfg
   \<and> length (rows (box_logits per_class_head)) = length (proposal_boxes per_class_head)
   \<and> decoded_output_boxes_batch Pair example_cfg per_class_head
     = Inr ([[((Finite 0, Finite 0, Finite 0, Finite 0), (0, 0, 4, 4)),
              ((Finite 1, Finite 1, Finite 1, Finite 1), (0, 0, 4, 4)),
              ((Finite 2, Finite 2, Finite 2, Finite 2), (0, 0, 4, 4))]], [1])
   \<and> (\<exists>decoded. decoded_output_boxes_batch Pair example_cfg per_class_head
          = Inr (decoded, map fst (proposal_boxes per_class_head))
        \<and> length decoded = 1)"
proof -
  have h: "wf_tensor (box_logits per_class_head)"
    "shape1 (box_logits per_class_head) = NUM_CLASS example_cfg"
    "length (rows (box_logits per_class_head)) = length (proposal_boxes per_class_head)"
    by (simp_all add: per_class_head_def example_cfg_def wf_tensor_def)
  have e: "decoded_output_boxes_batch Pair example_cfg per_class_head
     = Inr ([[((Finite 0, Finite 0, Finite 0, Finite 0), (0, 0, 4, 4)),
              ((Finite 1, Finite 1, Finite 1, Finite 1), (0, 0, 4, 4)),
              ((Finite 2, Finite 2, Finite 2, Finite 2), (0, 0, 4, 4))]], [1])"
    by code_simp
  from decoded_output_boxes_batch_per_class [OF h, of Pair] obtain decoded where
    r: "decoded_output_boxes_batch Pair example_cfg per_class_head
          = Inr (decoded, map fst (proposal_boxes per_class_head))"
    and l: "length decoded = length (proposal_boxes per_class_head)" by blast
  have "length (proposal_boxes per_class_head) = 1" by (simp add: per_class_head_def)
  with l have "length decoded = 1" by simp
  with r h e show ?thesis by blast
qed

end
